theory Spec2Isabelle
  imports Main
begin

section \<open>Python values used by \<open>src/cli/main.py\<close>\<close>

text \<open>
  A \<open>bytes\<close> object is a list of 8-bit characters; a \<open>str\<close> is a list of Unicode code
  points. Counts are Python's unbounded integers. A \<open>dict\<close> (and a \<open>defaultdict\<close>) is an
  association list in insertion order, because \<open>json.dumps\<close> walks the items in that order.
\<close>

type_synonym bytes = string
type_synonym pystr = "nat list"
type_synonym ('k, 'v) pydict = "('k \<times> 'v) list"

definition ascii :: "string \<Rightarrow> pystr" where
  "ascii s = map of_char s"

text \<open>
  The exceptions that can leave \<open>process_data\<close>. What \<open>urlopen\<close>, \<open>json.loads\<close> and \<open>open\<close>
  raise carries the message the library gave it.
\<close>

datatype error =
    URLError string
  | UnicodeDecodeError
  | JSONDecodeError string
  | KeyError pystr
  | TypeError
  | AttributeError
  | OSError string

subsection \<open>\<open>bytes.decode("utf-8")\<close>\<close>

definition is_cont :: "nat \<Rightarrow> bool" where
  "is_cont b \<longleftrightarrow> 0x80 \<le> b \<and> b \<le> 0xBF"

text \<open>The range allowed for the second byte after the lead byte \<open>a\<close> (no overlong forms, no
  surrogates, nothing above U+10FFFF).\<close>

definition second_ok :: "nat \<Rightarrow> nat \<Rightarrow> bool" where
  "second_ok a b \<longleftrightarrow>
     (if a = 0xE0 then 0xA0 \<le> b \<and> b \<le> 0xBF
      else if a = 0xED then 0x80 \<le> b \<and> b \<le> 0x9F
      else if a = 0xF0 then 0x90 \<le> b \<and> b \<le> 0xBF
      else if a = 0xF4 then 0x80 \<le> b \<and> b \<le> 0x8F
      else is_cont b)"

text \<open>The first code point of a byte sequence and the bytes after it; \<open>None\<close> where the
  strict decoder raises.\<close>

fun utf8_first :: "nat list \<Rightarrow> (nat \<times> nat list) option" where
  "utf8_first [] = None"
| "utf8_first (a # bs) =
     (if a < 0x80 then Some (a, bs)
      else if 0xC2 \<le> a \<and> a \<le> 0xDF then
        (case bs of
           b # r \<Rightarrow>
             if is_cont b then Some ((a - 0xC0) * 64 + (b - 0x80), r) else None
         | _ \<Rightarrow> None)
      else if 0xE0 \<le> a \<and> a \<le> 0xEF then
        (case bs of
           b # c # r \<Rightarrow>
             if second_ok a b \<and> is_cont c
             then Some ((a - 0xE0) * 4096 + (b - 0x80) * 64 + (c - 0x80), r) else None
         | _ \<Rightarrow> None)
      else if 0xF0 \<le> a \<and> a \<le> 0xF4 then
        (case bs of
           b # c # d # r \<Rightarrow>
             if second_ok a b \<and> is_cont c \<and> is_cont d
             then Some ((a - 0xF0) * 262144 + (b - 0x80) * 4096 + (c - 0x80) * 64 + (d - 0x80), r)
             else None
         | _ \<Rightarrow> None)
      else None)"

function utf8_points :: "nat list \<Rightarrow> error + pystr" where
  "utf8_points bs =
     (if bs = [] then Inr []
      else (case utf8_first bs of
              None \<Rightarrow> Inl UnicodeDecodeError
            | Some (cp, r) \<Rightarrow>
                (case utf8_points r of Inl e \<Rightarrow> Inl e | Inr s \<Rightarrow> Inr (cp # s))))"
  by pat_completeness auto
termination
proof (relation "measure length")
  show "wf (measure length)" by simp
next
  fix bs :: "nat list" and x2 cp r
  assume "bs \<noteq> []" and "utf8_first bs = Some x2" and "(cp, r) = x2"
  then have "length r < length bs"
    by (cases bs) (auto split: if_splits list.splits)
  then show "(r, bs) \<in> measure length" by simp
qed

declare utf8_points.simps [simp del]

definition utf8_decode :: "bytes \<Rightarrow> error + pystr" where
  "utf8_decode bs = utf8_points (map of_char bs)"

subsection \<open>\<open>str.strip()\<close> and \<open>str.split(",")\<close>\<close>

text \<open>The code points for which \<open>str.isspace\<close> holds; \<open>strip()\<close> without an argument removes
  exactly these from both ends.\<close>

definition isspace :: "nat \<Rightarrow> bool" where
  "isspace c \<longleftrightarrow>
     (0x09 \<le> c \<and> c \<le> 0x0D) \<or> (0x1C \<le> c \<and> c \<le> 0x20) \<or> c = 0x85 \<or> c = 0xA0 \<or>
     c = 0x1680 \<or> (0x2000 \<le> c \<and> c \<le> 0x200A) \<or> c = 0x2028 \<or> c = 0x2029 \<or>
     c = 0x202F \<or> c = 0x205F \<or> c = 0x3000"

definition lstrip :: "pystr \<Rightarrow> pystr" where
  "lstrip s = dropWhile isspace s"

definition rstrip :: "pystr \<Rightarrow> pystr" where
  "rstrip s = rev (dropWhile isspace (rev s))"

definition strip :: "pystr \<Rightarrow> pystr" where
  "strip s = rstrip (lstrip s)"

definition comma :: nat where
  "comma = 0x2C"

text \<open>\<open>s.split(sep)\<close> with a one-character separator: cut at every occurrence, keep empty
  fields; the result has one field more than there are separators.\<close>

function split_on :: "nat \<Rightarrow> pystr \<Rightarrow> pystr list" where
  "split_on sep s =
     (case dropWhile (\<lambda>c. c \<noteq> sep) s of
        [] \<Rightarrow> [s]
      | _ # rest \<Rightarrow> takeWhile (\<lambda>c. c \<noteq> sep) s # split_on sep rest)"
  by pat_completeness auto
termination
proof (relation "measure (\<lambda>(sep, s). length s)")
  show "wf (measure (\<lambda>(sep, s). length s))" by simp
next
  fix sep :: nat and s :: pystr and x rest
  assume "dropWhile (\<lambda>c. c \<noteq> sep) s = x # rest"
  then have "length (x # rest) \<le> length s"
    using length_dropWhile_le [of "\<lambda>c. c \<noteq> sep" s] by simp
  then show "((sep, rest), (sep, s)) \<in> measure (\<lambda>(sep, s). length s)" by simp
qed

declare split_on.simps [simp del]

subsection \<open>\<open>json.dumps(obj, indent=2)\<close>\<close>

text \<open>
  What \<open>json.loads\<close> returns and \<open>json.dumps\<close> takes. A float is carried as its \<open>repr\<close>
  text: the program never computes with one. With the default \<open>ensure_ascii=True\<close> every
  character outside the printable ASCII range is written as a \<open>\\uXXXX\<close> escape (a surrogate
  pair above U+FFFF), so the encoded text is a list of bytes. With \<open>indent=2\<close> the item
  separator is a comma followed by a newline and the indentation, the key separator is a colon
  and a space, and an empty container is written without a line break.
\<close>

datatype json =
    JNull
  | JBool bool
  | JInt int
  | JFloat string
  | JStr pystr
  | JArr "json list"
  | JObj "(pystr \<times> json) list"

definition hex_digit :: "nat \<Rightarrow> char" where
  "hex_digit d = ''0123456789abcdef'' ! d"

definition u_escape :: "nat \<Rightarrow> string" where
  "u_escape n =
     [CHR 0x5C, CHR ''u'', hex_digit (n div 4096 mod 16), hex_digit (n div 256 mod 16),
      hex_digit (n div 16 mod 16), hex_digit (n mod 16)]"

definition escape_char :: "nat \<Rightarrow> string" where
  "escape_char c =
     (if c = 0x22 then [CHR 0x5C, CHR 0x22]
      else if c = 0x5C then [CHR 0x5C, CHR 0x5C]
      else if c = 0x0A then [CHR 0x5C, CHR ''n'']
      else if c = 0x0D then [CHR 0x5C, CHR ''r'']
      else if c = 0x09 then [CHR 0x5C, CHR ''t'']
      else if c = 0x0C then [CHR 0x5C, CHR ''f'']
      else if c = 0x08 then [CHR 0x5C, CHR ''b'']
      else if 0x20 \<le> c \<and> c \<le> 0x7E then [char_of c]
      else if c < 0x10000 then u_escape c
      else u_escape (0xD800 + (c - 0x10000) div 1024 mod 1024) @
           u_escape (0xDC00 + (c - 0x10000) mod 1024))"

definition encode_string :: "pystr \<Rightarrow> string" where
  "encode_string s = [CHR 0x22] @ concat (map escape_char s) @ [CHR 0x22]"

function dec_digits :: "nat \<Rightarrow> string" where
  "dec_digits n =
     (if n < 10 then [char_of (48 + n)]
      else dec_digits (n div 10) @ [char_of (48 + n mod 10)])"
  by pat_completeness auto
termination
  by (relation "measure id") auto

declare dec_digits.simps [simp del]

definition int_repr :: "int \<Rightarrow> string" where
  "int_repr i = (if i < 0 then CHR ''-'' # dec_digits (nat (- i)) else dec_digits (nat i))"

definition newline_indent :: "nat \<Rightarrow> string" where
  "newline_indent level = CHR 0x0A # replicate (2 * level) CHR '' ''"

fun join :: "string \<Rightarrow> string list \<Rightarrow> string" where
  "join sep [] = []"
| "join sep [x] = x"
| "join sep (x # y # ys) = x @ sep @ join sep (y # ys)"

fun encode :: "nat \<Rightarrow> json \<Rightarrow> string" where
  "encode level JNull = ''null''"
| "encode level (JBool b) = (if b then ''true'' else ''false'')"
| "encode level (JInt i) = int_repr i"
| "encode level (JFloat r) = r"
| "encode level (JStr s) = encode_string s"
| "encode level (JArr xs) =
     (if xs = [] then ''[]''
      else ''['' @ newline_indent (Suc level) @
           join ('','' @ newline_indent (Suc level)) (map (encode (Suc level)) xs) @
           newline_indent level @ '']'')"
| "encode level (JObj kvs) =
     (if kvs = [] then ''{}''
      else ''{'' @ newline_indent (Suc level) @
           join ('','' @ newline_indent (Suc level))
             (map (\<lambda>(k, v). encode_string k @ '': '' @ encode (Suc level) v) kvs) @
           newline_indent level @ ''}'')"

definition json_dumps :: "json \<Rightarrow> string" where
  "json_dumps obj = encode 0 obj"

section \<open>The environment\<close>

text \<open>
  \<open>urlopen env n u\<close> is what the \<open>n\<close>-th call of \<open>urllib.request.urlopen\<close> in a run gives for
  the address \<open>u\<close>: an exception, or a response, which is the sequence of lines (each with its
  line end) the server sends, any of which may be a read error instead. The formatted string
  of line 117 is \<open>ExportUrl export_id\<close>, the one of line 135 is
  \<open>DataUrl export_id download_id\<close>. \<open>json_loads\<close> is \<open>json.loads\<close>; \<open>open_error env path\<close> is
  the exception \<open>open(path, "w")\<close> raises, if any. The world a run changes is the text on
  standard output, the files, and the errors logged by \<open>main\<close>.
\<close>

datatype url = ExportUrl pystr | DataUrl pystr json

type_synonym response = "(error + bytes) list"

record env =
  urlopen :: "nat \<Rightarrow> url \<Rightarrow> error + response"
  json_loads :: "pystr \<Rightarrow> error + json"
  open_error :: "pystr \<Rightarrow> error option"

record world =
  stdout :: string
  files :: "pystr \<Rightarrow> string option"
  error_log :: "error list"

text \<open>An exception ends every statement after it: the first error is the result.\<close>

definition bind :: "error + 'a \<Rightarrow> ('a \<Rightarrow> error + 'b) \<Rightarrow> error + 'b" where
  "bind m f = (case m of Inl e \<Rightarrow> Inl e | Inr x \<Rightarrow> f x)"

text \<open>\<open>response.read()\<close>: the whole body, or the first read error.\<close>

fun read_all :: "response \<Rightarrow> error + bytes" where
  "read_all [] = Inr []"
| "read_all (Inl e # rest) = Inl e"
| "read_all (Inr chunk # rest) = bind (read_all rest) (\<lambda>more. Inr (chunk @ more))"

text \<open>\<open>v[k]\<close> with a string key: a \<open>dict\<close> without the key raises \<open>KeyError\<close>; a list, a string,
  a number, a boolean or \<open>None\<close> raises \<open>TypeError\<close>.\<close>

fun subscript :: "json \<Rightarrow> pystr \<Rightarrow> error + json" where
  "subscript (JObj kvs) k = (case map_of kvs k of None \<Rightarrow> Inl (KeyError k) | Some v \<Rightarrow> Inr v)"
| "subscript _ k = Inl TypeError"

text \<open>\<open>len(v)\<close>, evaluated for the log message of line 124.\<close>

fun py_len :: "json \<Rightarrow> error + nat" where
  "py_len (JArr xs) = Inr (length xs)"
| "py_len (JStr s) = Inr (length s)"
| "py_len (JObj kvs) = Inr (length kvs)"
| "py_len _ = Inl TypeError"

text \<open>The values \<open>for download_id in v\<close> goes through: the elements of a list, the characters
  of a string, the keys of a \<open>dict\<close>.\<close>

fun py_iter :: "json \<Rightarrow> json list" where
  "py_iter (JArr xs) = xs"
| "py_iter (JStr s) = map (\<lambda>c. JStr [c]) s"
| "py_iter (JObj kvs) = map (\<lambda>(k, v). JStr k) kvs"
| "py_iter _ = []"

text \<open>Whether \<open>v.index\<close> exists. The log message of lines 132-134 calls
  \<open>download_ids.index(download_id)\<close>, which finds the element the loop is at in a list or a
  string and raises \<open>AttributeError\<close> on a \<open>dict\<close>.\<close>

fun has_index :: "json \<Rightarrow> bool" where
  "has_index (JArr xs) = True"
| "has_index (JStr s) = True"
| "has_index _ = False"

section \<open>The aggregation state\<close>

text \<open>Lines 148-152: the four fields a valid row is unpacked into.\<close>

record event_record =
  patient_id :: pystr
  event_time :: pystr
  event_type :: pystr
  row_value :: pystr

text \<open>Lines 127-128: \<open>patient_counts\<close> and \<open>total_counts\<close>.\<close>

record agg_state =
  patient_counts :: "(pystr, (pystr, int) pydict) pydict"
  total_counts :: "(pystr, int) pydict"

definition init_state :: agg_state where
  "init_state = \<lparr>patient_counts = [], total_counts = []\<rparr>"

text \<open>
  \<open>d[k] = f(d[k])\<close> on a \<open>defaultdict\<close> whose factory returns \<open>dflt\<close>: a key that is present
  keeps its position and gets the new value; a missing key is created with the default at
  the end and then updated.
\<close>

fun dict_upd :: "('v \<Rightarrow> 'v) \<Rightarrow> 'v \<Rightarrow> 'k \<Rightarrow> ('k, 'v) pydict \<Rightarrow> ('k, 'v) pydict" where
  "dict_upd f dflt k [] = [(k, f dflt)]"
| "dict_upd f dflt k ((k', v) # d) =
     (if k' = k then (k', f v) # d else (k', v) # dict_upd f dflt k d)"

text \<open>Lines 153-154.\<close>

definition apply_record :: "agg_state \<Rightarrow> event_record \<Rightarrow> agg_state" where
  "apply_record st r =
     st\<lparr>patient_counts :=
          dict_upd (dict_upd (\<lambda>c. c + 1) 0 (event_type r)) [] (patient_id r) (patient_counts st),
        total_counts := dict_upd (\<lambda>c. c + 1) 0 (event_type r) (total_counts st)\<rparr>"

section \<open>Parsing a line\<close>

text \<open>Lines 141-152. \<open>Inr None\<close> is a \<open>continue\<close>: the line gives no record.\<close>

definition parse_row :: "bytes \<Rightarrow> error + event_record option" where
  "parse_row line =
     (case utf8_decode line of
        Inl e \<Rightarrow> Inl e
      | Inr decoded \<Rightarrow>
          (let line_str = strip decoded in
           if line_str = [] then Inr None
           else (let row = split_on comma line_str in
                 if length row \<noteq> 4 then Inr None
                 else Inr (Some \<lparr>patient_id = row ! 0, event_time = row ! 1,
                                 event_type = row ! 2, row_value = row ! 3\<rparr>))))"

text \<open>One pass of the loop body of lines 140-155 (\<open>row_count\<close> only feeds a log message).\<close>

definition process_line :: "agg_state \<Rightarrow> bytes \<Rightarrow> error + agg_state" where
  "process_line st line =
     (case parse_row line of
        Inl e \<Rightarrow> Inl e
      | Inr None \<Rightarrow> Inr st
      | Inr (Some r) \<Rightarrow> Inr (apply_record st r))"

section \<open>The run\<close>

text \<open>Lines 117-124: the first request of the run, the body read and decoded, parsed by
  \<open>json.loads\<close>, subscripted twice, and the length taken for the log message.\<close>

definition resolve :: "env \<Rightarrow> pystr \<Rightarrow> error + json" where
  "resolve env export_id =
     bind (urlopen env 0 (ExportUrl export_id)) (\<lambda>response.
     bind (read_all response) (\<lambda>body.
     bind (utf8_decode body) (\<lambda>text.
     bind (json_loads env text) (\<lambda>document.
     bind (subscript document (ascii ''data'')) (\<lambda>export_data.
     bind (subscript export_data (ascii ''download_ids'')) (\<lambda>download_ids.
     bind (py_len download_ids) (\<lambda>n. Inr download_ids)))))))"

text \<open>Lines 140-155: the loop over the lines of one response; a read error ends it.\<close>

fun process_lines :: "agg_state \<Rightarrow> response \<Rightarrow> error + agg_state" where
  "process_lines st [] = Inr st"
| "process_lines st (Inl e # rest) = Inl e"
| "process_lines st (Inr line # rest) =
     bind (process_line st line) (\<lambda>st'. process_lines st' rest)"

text \<open>Line 138: \<open>response.readline()\<close> takes one line off the response, whatever it holds;
  at the end of the response it returns the empty bytes and takes nothing.\<close>

fun skip_header :: "response \<Rightarrow> error + response" where
  "skip_header [] = Inr []"
| "skip_header (Inl e # rest) = Inl e"
| "skip_header (Inr header # rest) = Inr rest"

text \<open>Lines 135-156: the \<open>n\<close>-th request of the run, for one download.\<close>

definition process_download :: "env \<Rightarrow> pystr \<Rightarrow> nat \<Rightarrow> agg_state \<Rightarrow> json \<Rightarrow> error + agg_state" where
  "process_download env export_id n st download_id =
     bind (urlopen env n (DataUrl export_id download_id)) (\<lambda>response.
     bind (skip_header response) (\<lambda>lines. process_lines st lines))"

text \<open>Lines 131-156: the loop over the download identifiers. The log message of lines 132-134
  is built before the request is made.\<close>

fun process_downloads ::
  "env \<Rightarrow> pystr \<Rightarrow> json \<Rightarrow> nat \<Rightarrow> agg_state \<Rightarrow> json list \<Rightarrow> error + agg_state" where
  "process_downloads env export_id download_ids n st [] = Inr st"
| "process_downloads env export_id download_ids n st (download_id # rest) =
     (if \<not> has_index download_ids then Inl AttributeError
      else bind (process_download env export_id n st download_id)
             (\<lambda>st'. process_downloads env export_id download_ids (Suc n) st' rest))"

text \<open>Lines 113-160: everything before the result is built.\<close>

definition aggregate :: "env \<Rightarrow> pystr \<Rightarrow> error + agg_state" where
  "aggregate env export_id =
     bind (resolve env export_id) (\<lambda>download_ids.
       process_downloads env export_id download_ids 1 init_state (py_iter download_ids))"

text \<open>Lines 164-171: the counters copied into plain dictionaries, in their order.\<close>

definition counts_json :: "(pystr, int) pydict \<Rightarrow> json" where
  "counts_json d = JObj (map (\<lambda>(t, c). (t, JInt c)) d)"

definition make_output :: "agg_state \<Rightarrow> json" where
  "make_output st =
     JObj [(ascii ''patients'', JObj (map (\<lambda>(p, inner). (p, counts_json inner)) (patient_counts st))),
           (ascii ''totals'', counts_json (total_counts st))]"

text \<open>Lines 173-177: \<open>print\<close> writes the text and a line end; then, if \<open>output_file\<close> is
  neither \<open>None\<close> nor empty, the file is opened for writing, which empties it, and the same
  serialization is written to it.\<close>

definition emit :: "env \<Rightarrow> json \<Rightarrow> pystr option \<Rightarrow> world \<Rightarrow> (error + unit) \<times> world" where
  "emit env output output_file w =
     (let w1 = w\<lparr>stdout := stdout w @ json_dumps output @ [CHR 0x0A]\<rparr> in
      case output_file of
        None \<Rightarrow> (Inr (), w1)
      | Some path \<Rightarrow>
          if path = [] then (Inr (), w1)
          else (case open_error env path of
                  Some e \<Rightarrow> (Inl e, w1)
                | None \<Rightarrow> (Inr (), w1\<lparr>files := (files w1)(path \<mapsto> json_dumps output)\<rparr>)))"

text \<open>Lines 82-177. An exception leaves nothing behind but what was printed before it.\<close>

definition process_data :: "env \<Rightarrow> pystr \<Rightarrow> pystr option \<Rightarrow> world \<Rightarrow> (error + unit) \<times> world" where
  "process_data env export_id output_file w =
     (case aggregate env export_id of
        Inl e \<Rightarrow> (Inl e, w)
      | Inr st \<Rightarrow> emit env (make_output st) output_file w)"

text \<open>Lines 180-204, given the parsed options: \<open>main\<close> returns 0, or logs the exception and
  returns 255. The time option only adds a log message.\<close>

record opts =
  opts_export_id :: pystr
  opts_output :: "pystr option"
  opts_time :: bool

definition main :: "env \<Rightarrow> opts \<Rightarrow> world \<Rightarrow> int \<times> world" where
  "main env opts w =
     (case process_data env (opts_export_id opts) (opts_output opts) w of
        (Inr u, w') \<Rightarrow> (0, w')
      | (Inl err, w') \<Rightarrow> (255, w'\<lparr>error_log := error_log w' @ [err]\<rparr>))"

section \<open>Vocabulary of the properties\<close>

definition dict_get :: "('k, 'v) pydict \<Rightarrow> 'v \<Rightarrow> 'k \<Rightarrow> 'v" where
  "dict_get d dflt k = (case map_of d k of None \<Rightarrow> dflt | Some v \<Rightarrow> v)"

definition keys :: "('k, 'v) pydict \<Rightarrow> 'k list" where
  "keys d = map fst d"

definition count_of :: "agg_state \<Rightarrow> pystr \<Rightarrow> pystr \<Rightarrow> int" where
  "count_of st p t = dict_get (dict_get (patient_counts st) [] p) 0 t"

definition total_of :: "agg_state \<Rightarrow> pystr \<Rightarrow> int" where
  "total_of st t = dict_get (total_counts st) 0 t"

definition apply_records :: "agg_state \<Rightarrow> event_record list \<Rightarrow> agg_state" where
  "apply_records st rs = foldl apply_record st rs"

definition nonempty_inner :: "agg_state \<Rightarrow> bool" where
  "nonempty_inner st = list_all (\<lambda>(p, inner). inner \<noteq> []) (patient_counts st)"

text \<open>The order in which the elements of a sequence are first seen.\<close>

definition first_seen :: "'a list \<Rightarrow> 'a list" where
  "first_seen xs = foldl (\<lambda>seen x. if x \<in> set seen then seen else seen @ [x]) [] xs"

definition times_seen :: "(event_record \<Rightarrow> bool) \<Rightarrow> event_record list \<Rightarrow> int" where
  "times_seen P rs = int (length (filter P rs))"

text \<open>
  The result object written for a record stream with no reference to the counters: the
  patients in first-seen order, for each patient its event types in the order the patient's
  records first show them, the totals in the first-seen order of the event types of the
  whole stream, every count the number of matching records.
\<close>

definition ordered_output :: "event_record list \<Rightarrow> json" where
  "ordered_output rs =
     JObj [(ascii ''patients'',
            JObj (map (\<lambda>p. (p, JObj (map (\<lambda>t. (t, JInt (times_seen
                                                (\<lambda>r. patient_id r = p \<and> event_type r = t) rs)))
                                     (first_seen (map event_type
                                        (filter (\<lambda>r. patient_id r = p) rs))))))
                      (first_seen (map patient_id rs)))),
           (ascii ''totals'',
            JObj (map (\<lambda>t. (t, JInt (times_seen (\<lambda>r. event_type r = t) rs)))
                      (first_seen (map event_type rs))))]"

text \<open>
  The same result as text, written out character by character as \<open>indent=2\<close> lays an object
  out: after the opening brace every member starts a new line, indented two blanks for each
  level of nesting, as the quoted key, a colon, a blank and the value; a comma follows every
  member but the last; the closing brace stands on a line of its own. The members come in
  the order of the list given, and \<open>ordered_text\<close> gives them in the first-seen orders of the
  record stream.
\<close>

fun member_lines :: "nat \<Rightarrow> (pystr \<times> string) list \<Rightarrow> string" where
  "member_lines depth [] = []"
| "member_lines depth [(k, v)] =
     CHR 0x0A # replicate (2 * depth) CHR '' '' @ encode_string k @ '': '' @ v"
| "member_lines depth ((k, v) # m # ms) =
     CHR 0x0A # replicate (2 * depth) CHR '' '' @ encode_string k @ '': '' @ v @ '','' @
     member_lines depth (m # ms)"

definition members_text :: "nat \<Rightarrow> (pystr \<times> string) list \<Rightarrow> string" where
  "members_text level ms =
     (if ms = [] then ''{}''
      else ''{'' @ member_lines (Suc level) ms @
           CHR 0x0A # replicate (2 * level) CHR '' '' @ ''}'')"

definition ordered_text :: "event_record list \<Rightarrow> string" where
  "ordered_text rs =
     members_text 0
       [(ascii ''patients'',
         members_text 1
           (map (\<lambda>p. (p, members_text 2
                          (map (\<lambda>t. (t, int_repr (times_seen
                                              (\<lambda>r. patient_id r = p \<and> event_type r = t) rs)))
                               (first_seen (map event_type
                                  (filter (\<lambda>r. patient_id r = p) rs))))))
                (first_seen (map patient_id rs)))),
        (ascii ''totals'',
         members_text 1
           (map (\<lambda>t. (t, int_repr (times_seen (\<lambda>r. event_type r = t) rs)))
                (first_seen (map event_type rs))))]"

text \<open>The records a sequence of lines contributes, and whether every line of it can be read
  and decoded.\<close>

fun rows_of_lines :: "response \<Rightarrow> event_record list" where
  "rows_of_lines [] = []"
| "rows_of_lines (Inl e # rest) = rows_of_lines rest"
| "rows_of_lines (Inr line # rest) =
     (case parse_row line of Inr (Some r) \<Rightarrow> r # rows_of_lines rest | _ \<Rightarrow> rows_of_lines rest)"

fun lines_ok :: "response \<Rightarrow> bool" where
  "lines_ok [] = True"
| "lines_ok (Inl e # rest) = False"
| "lines_ok (Inr line # rest) =
     (case parse_row line of Inl e \<Rightarrow> False | Inr row \<Rightarrow> lines_ok rest)"

text \<open>
  The record stream of a run whose download identifiers are \<open>ds\<close> and whose first download
  request is the \<open>n\<close>-th request of the run: the valid rows of the response to each download
  request, the header line left out, the requests in the order of the identifiers and the
  rows of a response in the order of its lines.
\<close>

fun record_stream :: "env \<Rightarrow> pystr \<Rightarrow> nat \<Rightarrow> json list \<Rightarrow> event_record list" where
  "record_stream env eid n [] = []"
| "record_stream env eid n (d # ds) =
     (case urlopen env n (DataUrl eid d) of
        Inl e \<Rightarrow> []
      | Inr response \<Rightarrow> rows_of_lines (drop 1 response)) @
     record_stream env eid (Suc n) ds"

text \<open>A document has the key path \<open>data.download_ids\<close> when it is an object whose member
  \<open>data\<close> is an object with a member \<open>download_ids\<close>.\<close>

definition has_key_path :: "json \<Rightarrow> bool" where
  "has_key_path document =
     (case document of
        JObj kvs \<Rightarrow>
          (case map_of kvs (ascii ''data'') of
             Some (JObj kvs') \<Rightarrow> map_of kvs' (ascii ''download_ids'') \<noteq> None
           | _ \<Rightarrow> False)
      | _ \<Rightarrow> False)"

text \<open>The member of a result object at a path of keys, as \<open>output[k1][k2]...\<close> reads it.\<close>

fun json_path :: "json \<Rightarrow> pystr list \<Rightarrow> error + json" where
  "json_path v [] = Inr v"
| "json_path v (k # ks) = bind (subscript v k) (\<lambda>v'. json_path v' ks)"

text \<open>
  An error \<open>e\<close> is surfaced when \<open>process_data\<close> ends with exactly \<open>e\<close>, having printed and
  written nothing, and \<open>main\<close> logs \<open>e\<close> and returns 255.
\<close>

definition surfaced :: "env \<Rightarrow> pystr \<Rightarrow> pystr option \<Rightarrow> bool \<Rightarrow> world \<Rightarrow> error \<Rightarrow> bool" where
  "surfaced env eid output_file tm w e \<longleftrightarrow>
     process_data env eid output_file w = (Inl e, w) \<and>
     main env \<lparr>opts_export_id = eid, opts_output = output_file, opts_time = tm\<rparr> w =
       (255, w\<lparr>error_log := error_log w @ [e]\<rparr>)"

subsection \<open>Example servers\<close>

text \<open>A server that gives the same answer to every request, as the mocked \<open>urlopen\<close> of
  \<open>tests/test_cli.py\<close> does.\<close>

definition mock_env :: "error + response \<Rightarrow> (pystr \<Rightarrow> error + json) \<Rightarrow> env" where
  "mock_env answer loads =
     \<lparr>urlopen = (\<lambda>n u. answer), json_loads = loads, open_error = (\<lambda>path. None)\<rparr>"

definition dq :: string where
  "dq = [CHR 0x22]"

definition example_body :: bytes where
  "example_body =
     ''{'' @ dq @ ''data'' @ dq @ '': {'' @ dq @ ''download_ids'' @ dq @ '': ['' @
     dq @ ''a'' @ dq @ '', '' @ dq @ ''b'' @ dq @ '']}}''"

definition example_document :: json where
  "example_document =
     JObj [(ascii ''data'',
            JObj [(ascii ''download_ids'', JArr [JStr (ascii ''a''), JStr (ascii ''b'')])])]"

definition header_line :: bytes where
  "header_line = ''patient_id,event_time,event_type,value'' @ [CHR 0x0A]"

text \<open>An export of the two downloads \<open>a\<close> and \<open>b\<close>, each of one row for the patient \<open>P001\<close>.\<close>

definition example_env :: env where
  "example_env =
     \<lparr>urlopen = (\<lambda>n u. case u of
          ExportUrl e \<Rightarrow> Inr [Inr example_body]
        | DataUrl e d \<Rightarrow>
            if d = JStr (ascii ''a'')
            then Inr [Inr header_line,
                      Inr (''P001,2023-01-01T00:00:00Z,heart_rate,75'' @ [CHR 0x0A])]
            else Inr [Inr header_line,
                      Inr (''P001,2023-01-02T00:00:00Z,heart_rate,80'' @ [CHR 0x0A])]),
      json_loads = (\<lambda>s. if s = ascii example_body then Inr example_document
                         else Inl (JSONDecodeError ''Expecting value'')),
      open_error = (\<lambda>path. None)\<rparr>"

text \<open>An export of the two downloads \<open>a\<close> and \<open>b\<close> whose rows show the patient \<open>P002\<close> before
  \<open>P001\<close> and the event type \<open>spo2\<close> before \<open>heart_rate\<close>.\<close>

definition order_env :: env where
  "order_env =
     \<lparr>urlopen = (\<lambda>n u. case u of
          ExportUrl e \<Rightarrow> Inr [Inr example_body]
        | DataUrl e d \<Rightarrow>
            if d = JStr (ascii ''a'')
            then Inr [Inr header_line,
                      Inr (''P002,2023-01-01T00:00:00Z,spo2,98'' @ [CHR 0x0A]),
                      Inr (''P001,2023-01-01T00:05:00Z,heart_rate,75'' @ [CHR 0x0A])]
            else Inr [Inr header_line,
                      Inr (''P002,2023-01-02T00:00:00Z,heart_rate,80'' @ [CHR 0x0A])]),
      json_loads = (\<lambda>s. if s = ascii example_body then Inr example_document
                         else Inl (JSONDecodeError ''Expecting value'')),
      open_error = (\<lambda>path. None)\<rparr>"

definition empty_world :: world where
  "empty_world = \<lparr>stdout = [], files = Map.empty, error_log = []\<rparr>"

definition example_record :: "string \<Rightarrow> string \<Rightarrow> event_record" where
  "example_record p t =
     \<lparr>patient_id = ascii p, event_time = ascii ''2023-01-01T00:00:00Z'', event_type = ascii t,
      row_value = ascii ''1''\<rparr>"

definition stale_world :: world where
  "stale_world =
     \<lparr>stdout = ''earlier output'', files = [ascii ''out.json'' \<mapsto> ''stale content''],
      error_log = []\<rparr>"

section \<open>Splitting and trimming\<close>

lemma split_on_no_sep: "sep \<notin> set s \<Longrightarrow> split_on sep s = [s]"
proof -
  assume "sep \<notin> set s"
  then have d: "dropWhile (\<lambda>c. c \<noteq> sep) s = []" by auto
  show ?thesis by (subst split_on.simps, subst d) simp
qed

lemma split_on_field: 
  assumes "sep \<notin> set a"
  shows "split_on sep (a @ sep # rest) = a # split_on sep rest"
proof -
  from assms have d: "dropWhile (\<lambda>c. c \<noteq> sep) (a @ sep # rest) = sep # rest"
    by (subst dropWhile_append2) auto
  from assms have t: "takeWhile (\<lambda>c. c \<noteq> sep) (a @ sep # rest) = a"
    by (subst takeWhile_append2) auto
  show ?thesis by (subst split_on.simps) (simp add: d t)
qed

lemma count_list_takeWhile_neq: "count_list (takeWhile (\<lambda>c. c \<noteq> sep) s) sep = 0"
  by (induction s) auto

lemma length_split_on: "length (split_on sep s) = Suc (count_list s sep)"
proof (induction sep s rule: split_on.induct)
  case (1 sep s)
  show ?case
  proof (cases "dropWhile (\<lambda>c. c \<noteq> sep) s")
    case Nil
    then have "sep \<notin> set s" by auto
    then show ?thesis by (simp add: split_on_no_sep)
  next
    case (Cons x rest)
    then have x: "x = sep" using hd_dropWhile [of "\<lambda>c. c \<noteq> sep" s] by auto
    have "s = takeWhile (\<lambda>c. c \<noteq> sep) s @ dropWhile (\<lambda>c. c \<noteq> sep) s" by simp
    then have "count_list s sep = count_list (takeWhile (\<lambda>c. c \<noteq> sep) s) sep + count_list (x # rest) sep"
      using Cons by (metis count_list_append)
    then have c: "count_list s sep = Suc (count_list rest sep)"
      using x by (simp add: count_list_takeWhile_neq)
    have "split_on sep s = takeWhile (\<lambda>c. c \<noteq> sep) s # split_on sep rest"
      by (subst split_on.simps) (simp add: Cons)
    then show ?thesis using "1.IH" [OF Cons] c by simp
  qed
qed

lemma dropWhile_stop: "\<not> P y \<Longrightarrow> dropWhile P (xs @ y # ys) = dropWhile P xs @ y # ys"
  by (induction xs) auto

lemma count_list_dropWhile: "\<not> P c \<Longrightarrow> count_list (dropWhile P s) c = count_list s c"
  by (induction s) auto

lemma not_isspace_comma: "\<not> isspace comma"
  by (simp add: isspace_def comma_def)

lemma count_list_strip: "count_list (strip s) comma = count_list s comma"
  by (simp add: strip_def lstrip_def rstrip_def count_list_dropWhile not_isspace_comma)

lemma lstrip_stop: "\<not> isspace y \<Longrightarrow> lstrip (xs @ y # ys) = lstrip xs @ y # ys"
  by (simp add: lstrip_def dropWhile_stop)

lemma rstrip_stop: "\<not> isspace y \<Longrightarrow> rstrip (xs @ y # ys) = xs @ y # rstrip ys"
  by (simp add: rstrip_def dropWhile_stop)

lemma set_lstrip: "set (lstrip s) \<subseteq> set s"
  by (auto simp: lstrip_def dest: set_dropWhileD)

lemma set_rstrip: "set (rstrip s) \<subseteq> set s"
  using set_dropWhileD [of _ isspace "rev s"] by (auto simp: rstrip_def)

lemma strip_Nil_no_comma: "strip s = [] \<Longrightarrow> count_list s comma = 0"
  using count_list_strip [of s] by simp

section \<open>Counters\<close>

lemma dict_get_dict_upd:
  "dict_get (dict_upd f dflt k d) dflt k' = (if k' = k then f (dict_get d dflt k) else dict_get d dflt k')"
  by (induction d) (auto simp: dict_get_def)

lemma keys_dict_upd:
  "keys (dict_upd f dflt k d) = (if k \<in> set (keys d) then keys d else keys d @ [k])"
  by (induction d) (force simp: keys_def)+

lemma distinct_keys_dict_upd: "distinct (keys d) \<Longrightarrow> distinct (keys (dict_upd f dflt k d))"
  by (simp add: keys_dict_upd)

lemma inner_sum_dict_upd:
  "(\<Sum>(p, inner)\<leftarrow>dict_upd (dict_upd (\<lambda>c. c + 1) 0 e) [] p pc. dict_get inner (0::int) t) =
   (\<Sum>(p, inner)\<leftarrow>pc. dict_get inner 0 t) + (if t = e then 1 else 0)"
  by (induction pc) (auto simp: dict_get_dict_upd, auto simp: dict_get_def)

lemma sum_list_by_key:
  "distinct (keys pc) \<Longrightarrow>
   (\<Sum>(p, inner)\<leftarrow>pc. g inner) = (\<Sum>p\<in>set (keys pc). (g (dict_get pc dflt p) :: int))"
proof (induction pc)
  case Nil
  then show ?case by (simp add: keys_def)
next
  case (Cons a pc)
  obtain k v where a: "a = (k, v)" by (cases a)
  from Cons.prems a have k: "k \<notin> set (keys pc)" and d: "distinct (keys pc)"
    by (simp_all add: keys_def)
  have "(\<Sum>p\<in>set (keys pc). g (dict_get (a # pc) dflt p)) = (\<Sum>p\<in>set (keys pc). g (dict_get pc dflt p))"
    using k by (intro sum.cong) (auto simp: a dict_get_def)
  moreover have "set (keys (a # pc)) = insert k (set (keys pc))" by (simp add: a keys_def)
  moreover have "dict_get (a # pc) dflt k = v" by (simp add: a dict_get_def)
  ultimately show ?case using Cons.IH [OF d] k by (simp add: a)
qed

lemma distinct_patients: "distinct (keys (patient_counts (apply_records init_state rs)))"
proof -
  have "distinct (keys (patient_counts st)) \<Longrightarrow> distinct (keys (patient_counts (apply_records st rs)))" for st
    by (induction rs arbitrary: st) (simp_all add: apply_records_def apply_record_def distinct_keys_dict_upd)
  then show ?thesis by (simp add: init_state_def keys_def)
qed

lemma totals_step:
  assumes "total_of st t = (\<Sum>(p, inner)\<leftarrow>patient_counts st. dict_get inner 0 t)"
  shows "total_of (apply_record st r) t =
         (\<Sum>(p, inner)\<leftarrow>patient_counts (apply_record st r). dict_get inner 0 t)"
  using assms
  by (auto simp: apply_record_def total_of_def dict_get_dict_upd inner_sum_dict_upd)

lemma totals_list_sum:
  "total_of (apply_records init_state rs) t =
   (\<Sum>(p, inner)\<leftarrow>patient_counts (apply_records init_state rs). dict_get inner 0 t)"
proof -
  have "total_of st t = (\<Sum>(p, inner)\<leftarrow>patient_counts st. dict_get inner 0 t) \<Longrightarrow>
        total_of (apply_records st rs) t =
        (\<Sum>(p, inner)\<leftarrow>patient_counts (apply_records st rs). dict_get inner 0 t)" for st
  proof (induction rs arbitrary: st)
    case Nil
    then show ?case by (simp add: apply_records_def)
  next
    case (Cons r rs)
    from Cons.IH [OF totals_step [OF Cons.prems]] show ?case
      by (simp add: apply_records_def)
  qed
  then show ?thesis by (simp add: init_state_def total_of_def dict_get_def)
qed

text \<open>
  Claim C1. After each record of any sequence is applied, starting from the empty counters,
  the total of every event type \<open>t\<close> is the sum, over the patients recorded, of the patient's
  count for \<open>t\<close> (a missing entry counting as zero).
\<close>

theorem totals_equal_patient_sums:
  "total_of (apply_records init_state (take n rs)) t =
   (\<Sum>p\<in>set (keys (patient_counts (apply_records init_state (take n rs)))).
      count_of (apply_records init_state (take n rs)) p t)"
  unfolding count_of_def
  using sum_list_by_key [OF distinct_patients, of "\<lambda>inner. dict_get inner 0 t" "take n rs" "[]"]
  by (simp add: totals_list_sum)

theorem totals_equal_patient_sums_witness:
  "total_of (apply_records init_state (take 3
      [example_record ''P001'' ''heart_rate'', example_record ''P002'' ''heart_rate'',
       example_record ''P001'' ''spo2'', example_record ''P003'' ''heart_rate'']))
     (ascii ''heart_rate'') = 2 \<and>
   (\<Sum>p\<in>set (keys (patient_counts (apply_records init_state (take 3
      [example_record ''P001'' ''heart_rate'', example_record ''P002'' ''heart_rate'',
       example_record ''P001'' ''spo2'', example_record ''P003'' ''heart_rate''])))).
      count_of (apply_records init_state (take 3
      [example_record ''P001'' ''heart_rate'', example_record ''P002'' ''heart_rate'',
       example_record ''P001'' ''spo2'', example_record ''P003'' ''heart_rate''])) p
        (ascii ''heart_rate'')) = 2"
proof -
  have v: "total_of (apply_records init_state (take 3
      [example_record ''P001'' ''heart_rate'', example_record ''P002'' ''heart_rate'',
       example_record ''P001'' ''spo2'', example_record ''P003'' ''heart_rate'']))
     (ascii ''heart_rate'') = 2"
    by (simp add: total_of_def apply_records_def apply_record_def init_state_def
        example_record_def ascii_def dict_get_def)
  from totals_equal_patient_sums [of 3
      "[example_record ''P001'' ''heart_rate'', example_record ''P002'' ''heart_rate'',
       example_record ''P001'' ''spo2'', example_record ''P003'' ''heart_rate'']"
      "ascii ''heart_rate''"] v
  show ?thesis by simp
qed

lemma dict_upd_nonempty: "dict_upd f dflt k d \<noteq> []"
  by (cases d) (auto split: if_splits)

lemma list_all_dict_upd:
  "list_all (\<lambda>(p, v). P v) d \<Longrightarrow> (\<And>v. P (f v)) \<Longrightarrow> list_all (\<lambda>(p, v). P v) (dict_upd f dflt k d)"
  by (induction d) auto

lemma nonempty_inner_apply: "nonempty_inner st \<Longrightarrow> nonempty_inner (apply_record st r)"
  by (simp add: nonempty_inner_def apply_record_def list_all_dict_upd dict_upd_nonempty)

text \<open>
  Claim C4. After each record of any sequence is applied, starting from the empty counters,
  every patient in \<open>patient_counts\<close> has a non-empty inner mapping. Only applying a record
  changes the counters (\<open>process_line\<close>), and that creates the patient's entry and counts the
  event in the same statement.
\<close>

theorem patients_have_events: "nonempty_inner (apply_records init_state (take n rs))"
proof -
  have "nonempty_inner st \<Longrightarrow> nonempty_inner (apply_records st xs)" for st xs
    by (induction xs arbitrary: st) (simp_all add: apply_records_def nonempty_inner_apply)
  then show ?thesis by (simp add: init_state_def nonempty_inner_def)
qed

theorem patients_have_events_witness:
  "patient_counts (apply_records init_state (take 2
      [example_record ''P001'' ''heart_rate'', example_record ''P002'' ''spo2'',
       example_record ''P003'' ''spo2''])) =
     [(ascii ''P001'', [(ascii ''heart_rate'', 1)]), (ascii ''P002'', [(ascii ''spo2'', 1)])] \<and>
   nonempty_inner (apply_records init_state (take 2
      [example_record ''P001'' ''heart_rate'', example_record ''P002'' ''spo2'',
       example_record ''P003'' ''spo2'']))"
proof -
  have v: "patient_counts (apply_records init_state (take 2
      [example_record ''P001'' ''heart_rate'', example_record ''P002'' ''spo2'',
       example_record ''P003'' ''spo2''])) =
     [(ascii ''P001'', [(ascii ''heart_rate'', 1)]), (ascii ''P002'', [(ascii ''spo2'', 1)])]"
    by (simp add: apply_records_def apply_record_def init_state_def example_record_def ascii_def)
  from patients_have_events [of 2
      "[example_record ''P001'' ''heart_rate'', example_record ''P002'' ''spo2'',
       example_record ''P003'' ''spo2'']"] v
  show ?thesis by simp
qed

subsection \<open>Order of the keys and value of the counts\<close>

lemma first_seen_Nil: "first_seen [] = []"
  by (simp add: first_seen_def)

lemma first_seen_snoc:
  "first_seen (xs @ [x]) = (if x \<in> set (first_seen xs) then first_seen xs else first_seen xs @ [x])"
  by (simp add: first_seen_def)

text \<open>\<open>first_seen\<close> keeps the first occurrence of every element (\<open>remdups\<close> keeps the last).\<close>

lemma first_seen_rev_remdups: "first_seen xs = rev (remdups (rev xs))"
proof (induction xs rule: rev_induct)
  case Nil
  then show ?case by (simp add: first_seen_Nil)
next
  case (snoc x xs)
  then show ?case by (simp add: first_seen_snoc)
qed

lemma apply_records_snoc: "apply_records st (rs @ [r]) = apply_record (apply_records st rs) r"
  by (simp add: apply_records_def)

lemma apply_records_Nil: "apply_records st [] = st"
  by (simp add: apply_records_def)

lemma apply_records_append: "apply_records st (xs @ ys) = apply_records (apply_records st xs) ys"
  by (simp add: apply_records_def)

lemma patient_order:
  "keys (patient_counts (apply_records init_state rs)) = first_seen (map patient_id rs)"
proof (induction rs rule: rev_induct)
  case Nil
  then show ?case by (simp add: apply_records_Nil init_state_def keys_def first_seen_Nil)
next
  case (snoc r rs)
  then show ?case
    by (simp add: apply_records_snoc apply_record_def keys_dict_upd first_seen_snoc)
qed

lemma total_order:
  "keys (total_counts (apply_records init_state rs)) = first_seen (map event_type rs)"
proof (induction rs rule: rev_induct)
  case Nil
  then show ?case by (simp add: apply_records_Nil init_state_def keys_def first_seen_Nil)
next
  case (snoc r rs)
  then show ?case
    by (simp add: apply_records_snoc apply_record_def keys_dict_upd first_seen_snoc)
qed

lemma inner_order:
  "keys (dict_get (patient_counts (apply_records init_state rs)) [] p) =
   first_seen (map event_type (filter (\<lambda>r. patient_id r = p) rs))"
proof (induction rs rule: rev_induct)
  case Nil
  then show ?case
    by (simp add: apply_records_Nil init_state_def keys_def first_seen_Nil dict_get_def)
next
  case (snoc r rs)
  show ?case
  proof (cases "patient_id r = p")
    case True
    with snoc show ?thesis
      by (simp add: apply_records_snoc apply_record_def dict_get_dict_upd keys_dict_upd
          first_seen_snoc)
  next
    case False
    then have "p \<noteq> patient_id r" by blast
    with False snoc show ?thesis
      by (simp add: apply_records_snoc apply_record_def dict_get_dict_upd)
  qed
qed

lemma count_of_records:
  "count_of (apply_records init_state rs) p t =
   times_seen (\<lambda>r. patient_id r = p \<and> event_type r = t) rs"
proof (induction rs rule: rev_induct)
  case Nil
  then show ?case
    by (simp add: apply_records_Nil init_state_def count_of_def dict_get_def times_seen_def)
next
  case (snoc r rs)
  then show ?case
    by (auto simp: apply_records_snoc apply_record_def dict_get_dict_upd count_of_def
        times_seen_def)
qed

lemma total_of_records:
  "total_of (apply_records init_state rs) t = times_seen (\<lambda>r. event_type r = t) rs"
proof (induction rs rule: rev_induct)
  case Nil
  then show ?case
    by (simp add: apply_records_Nil init_state_def total_of_def dict_get_def times_seen_def)
next
  case (snoc r rs)
  then show ?case
    by (auto simp: apply_records_snoc apply_record_def dict_get_dict_upd total_of_def
        times_seen_def)
qed

lemma dict_by_keys: "distinct (keys d) \<Longrightarrow> map (\<lambda>k. (k, dict_get d dflt k)) (keys d) = d"
proof (induction d)
  case Nil
  then show ?case by (simp add: keys_def)
next
  case (Cons a d)
  obtain k v where a: "a = (k, v)" by (cases a)
  from Cons.prems a have k: "k \<notin> set (keys d)" and d: "distinct (keys d)"
    by (simp_all add: keys_def)
  have "map (\<lambda>k'. (k', dict_get ((k, v) # d) dflt k')) (keys d) =
        map (\<lambda>k'. (k', dict_get d dflt k')) (keys d)"
    using k by (intro map_cong) (auto simp: dict_get_def)
  then have tail: "map (\<lambda>k'. (k', dict_get ((k, v) # d) dflt k')) (keys d) = d"
    using Cons.IH [OF d] by simp
  have head: "dict_get ((k, v) # d) dflt k = v" by (simp add: dict_get_def)
  have "keys ((k, v) # d) = k # keys d" by (simp add: keys_def)
  then show ?case unfolding a by (simp add: tail head)
qed

lemma distinct_totals: "distinct (keys (total_counts (apply_records init_state rs)))"
  by (simp add: total_order first_seen_rev_remdups)

lemma distinct_inner:
  "distinct (keys (dict_get (patient_counts (apply_records init_state rs)) [] p))"
  by (simp add: inner_order first_seen_rev_remdups)

section \<open>Rows\<close>

lemma utf8_points_ascii: "list_all (\<lambda>b. b < 0x80) bs \<Longrightarrow> utf8_points bs = Inr bs"
proof (induction bs)
  case Nil
  show ?case by (subst utf8_points.simps) simp
next
  case (Cons b bs)
  then show ?case by (subst utf8_points.simps) simp
qed

lemma utf8_decode_ascii:
  assumes "list_all (\<lambda>c. of_char c < (0x80 :: nat)) s"
  shows "utf8_decode s = Inr (ascii s)"
proof -
  have "list_all (\<lambda>b. b < 0x80) (map of_char s :: nat list)"
    using assms by (simp add: list_all_iff)
  then show ?thesis by (simp only: utf8_decode_def ascii_def utf8_points_ascii)
qed

lemma length_split_strip: "length (split_on comma (strip s)) = length (split_on comma s)"
  by (simp add: length_split_on count_list_strip)

lemma four_fields: "length xs = 4 \<Longrightarrow> [xs ! 0, xs ! 1, xs ! 2, xs ! 3] = xs"
  by (auto simp: list_eq_iff_nth_eq less_Suc_eq numeral_eq_Suc)

lemma parse_row_decode_error: "utf8_decode line = Inl e \<Longrightarrow> parse_row line = Inl e"
  by (simp add: parse_row_def)

lemma parse_row_malformed:
  assumes "utf8_decode line = Inr s" and "length (split_on comma s) \<noteq> 4"
  shows "parse_row line = Inr None"
  using assms by (simp add: parse_row_def Let_def length_split_strip)

lemma parse_row_four:
  assumes "utf8_decode line = Inr s" and "length (split_on comma s) = 4"
  shows "parse_row line =
         Inr (Some \<lparr>patient_id = split_on comma (strip s) ! 0, event_time = split_on comma (strip s) ! 1,
                    event_type = split_on comma (strip s) ! 2, row_value = split_on comma (strip s) ! 3\<rparr>)"
proof -
  have "count_list (strip s) comma = 3"
    using assms(2) by (simp add: length_split_on count_list_strip)
  then have "strip s \<noteq> []" by auto
  then show ?thesis
    using assms by (simp add: parse_row_def Let_def length_split_strip)
qed

lemma strip_four_fields:
  assumes "comma \<notin> set f1" "comma \<notin> set f2" "comma \<notin> set f3" "comma \<notin> set f4"
  shows "split_on comma (strip (f1 @ comma # f2 @ comma # f3 @ comma # f4)) =
         [lstrip f1, f2, f3, rstrip f4]"
proof -
  have l: "lstrip (f1 @ comma # f2 @ comma # f3 @ comma # f4) =
           lstrip f1 @ comma # f2 @ comma # f3 @ comma # f4"
    by (rule lstrip_stop [OF not_isspace_comma])
  have "rstrip ((lstrip f1 @ comma # f2 @ comma # f3) @ comma # f4) =
        (lstrip f1 @ comma # f2 @ comma # f3) @ comma # rstrip f4"
    by (rule rstrip_stop [OF not_isspace_comma])
  then have s: "strip (f1 @ comma # f2 @ comma # f3 @ comma # f4) =
           lstrip f1 @ comma # f2 @ comma # f3 @ comma # rstrip f4"
    by (simp add: strip_def l)
  have c1: "comma \<notin> set (lstrip f1)" using assms(1) set_lstrip by blast
  have c4: "comma \<notin> set (rstrip f4)" using assms(4) set_rstrip by blast
  show ?thesis
    by (simp add: s split_on_field [OF c1] split_on_field [OF assms(2)]
        split_on_field [OF assms(3)] split_on_no_sep [OF c4])
qed

lemma split_four_fields:
  assumes "comma \<notin> set f1" "comma \<notin> set f2" "comma \<notin> set f3" "comma \<notin> set f4"
  shows "split_on comma (f1 @ comma # f2 @ comma # f3 @ comma # f4) = [f1, f2, f3, f4]"
  by (simp add: split_on_field [OF assms(1)] split_on_field [OF assms(2)]
        split_on_field [OF assms(3)] split_on_no_sep [OF assms(4)])

lemma count_of_apply:
  "count_of (apply_record st r) (patient_id r) (event_type r) =
   count_of st (patient_id r) (event_type r) + 1"
  by (simp add: count_of_def apply_record_def dict_get_dict_upd)

lemma total_of_apply:
  "total_of (apply_record st r) (event_type r) = total_of st (event_type r) + 1"
  by (simp add: total_of_def apply_record_def dict_get_dict_upd)

lemma parse_row_fields:
  assumes "utf8_decode line = Inr (f1 @ comma # f2 @ comma # f3 @ comma # f4)"
    and "comma \<notin> set f1" "comma \<notin> set f2" "comma \<notin> set f3" "comma \<notin> set f4"
  shows "parse_row line =
         Inr (Some \<lparr>patient_id = lstrip f1, event_time = f2, event_type = f3,
                    row_value = rstrip f4\<rparr>)"
proof -
  have "length (split_on comma (f1 @ comma # f2 @ comma # f3 @ comma # f4)) = 4"
    by (simp add: split_four_fields [OF assms(2-5)])
  from parse_row_four [OF assms(1) this] show ?thesis
    by (simp add: strip_four_fields [OF assms(2-5)])
qed

text \<open>
  Claim C2. A line whose split at the commas does not give exactly four fields yields no
  record, and processing it leaves \<open>patient_counts\<close> and \<open>total_counts\<close> as they were. The
  line is one that decodes; a line that is not UTF-8 raises \<open>UnicodeDecodeError\<close> instead
  (\<open>parse_row_decode_error\<close>).
\<close>

theorem malformed_row_skipped:
  assumes "utf8_decode line = Inr s" and "length (split_on comma s) \<noteq> 4"
  shows "parse_row line = Inr None \<and> process_line st line = Inr st"
  using parse_row_malformed [OF assms] by (simp add: process_line_def)

theorem malformed_row_skipped_witness:
  "utf8_decode (''malformed,row'' @ [CHR 0x0A]) = Inr (ascii (''malformed,row'' @ [CHR 0x0A])) \<and>
   length (split_on comma (ascii (''malformed,row'' @ [CHR 0x0A]))) \<noteq> 4 \<and>
   parse_row (''malformed,row'' @ [CHR 0x0A]) = Inr None \<and>
   process_line init_state (''malformed,row'' @ [CHR 0x0A]) = Inr init_state"
proof -
  have d: "utf8_decode (''malformed,row'' @ [CHR 0x0A]) =
           Inr (ascii (''malformed,row'' @ [CHR 0x0A]))"
    by (rule utf8_decode_ascii) simp
  have n: "length (split_on comma (ascii (''malformed,row'' @ [CHR 0x0A]))) \<noteq> 4"
    by (simp add: length_split_on ascii_def comma_def)
  from malformed_row_skipped [OF d n, of init_state] d n show ?thesis by blast
qed

text \<open>
  Claim C3, as stated, fails: the line \<open>" P001,2023-01-01T00:00:00Z,heart_rate,75"\<close> has the
  four non-empty fields \<open>" P001"\<close>, \<open>"2023-01-01T00:00:00Z"\<close>, \<open>"heart_rate"\<close>, \<open>"75"\<close>, and the
  record parsed from it has the patient \<open>"P001"\<close>: line 141 trims the whole line before it is
  split, which takes the leading blank off the first field.
\<close>

theorem leading_space_trimmed:
  "utf8_decode '' P001,2023-01-01T00:00:00Z,heart_rate,75'' =
     Inr (ascii '' P001'' @ comma # ascii ''2023-01-01T00:00:00Z'' @ comma #
          ascii ''heart_rate'' @ comma # ascii ''75'') \<and>
   split_on comma (ascii '' P001'' @ comma # ascii ''2023-01-01T00:00:00Z'' @ comma #
          ascii ''heart_rate'' @ comma # ascii ''75'') =
     [ascii '' P001'', ascii ''2023-01-01T00:00:00Z'', ascii ''heart_rate'', ascii ''75''] \<and>
   parse_row '' P001,2023-01-01T00:00:00Z,heart_rate,75'' =
     Inr (Some \<lparr>patient_id = ascii ''P001'', event_time = ascii ''2023-01-01T00:00:00Z'',
                event_type = ascii ''heart_rate'', row_value = ascii ''75''\<rparr>) \<and>
   ascii ''P001'' \<noteq> ascii '' P001''"
proof -
  have "utf8_decode '' P001,2023-01-01T00:00:00Z,heart_rate,75'' =
        Inr (ascii '' P001,2023-01-01T00:00:00Z,heart_rate,75'')"
    by (rule utf8_decode_ascii) simp
  moreover have "ascii '' P001,2023-01-01T00:00:00Z,heart_rate,75'' =
        ascii '' P001'' @ comma # ascii ''2023-01-01T00:00:00Z'' @ comma #
          ascii ''heart_rate'' @ comma # ascii ''75''"
    by (simp add: ascii_def comma_def)
  ultimately have d: "utf8_decode '' P001,2023-01-01T00:00:00Z,heart_rate,75'' =
     Inr (ascii '' P001'' @ comma # ascii ''2023-01-01T00:00:00Z'' @ comma #
          ascii ''heart_rate'' @ comma # ascii ''75'')"
    by (simp only:)
  have c1: "comma \<notin> set (ascii '' P001'')" by (simp add: ascii_def comma_def)
  have c2: "comma \<notin> set (ascii ''2023-01-01T00:00:00Z'')" by (simp add: ascii_def comma_def)
  have c3: "comma \<notin> set (ascii ''heart_rate'')" by (simp add: ascii_def comma_def)
  have c4: "comma \<notin> set (ascii ''75'')" by (simp add: ascii_def comma_def)
  have l: "lstrip (ascii '' P001'') = ascii ''P001''"
    by (simp add: lstrip_def ascii_def isspace_def)
  have r: "rstrip (ascii ''75'') = ascii ''75''"
    by (simp add: rstrip_def ascii_def isspace_def)
  have p: "parse_row '' P001,2023-01-01T00:00:00Z,heart_rate,75'' =
     Inr (Some \<lparr>patient_id = ascii ''P001'', event_time = ascii ''2023-01-01T00:00:00Z'',
                event_type = ascii ''heart_rate'', row_value = ascii ''75''\<rparr>)"
    using parse_row_fields [OF d c1 c2 c3 c4] by (simp only: l r)
  have ne: "ascii ''P001'' \<noteq> ascii '' P001''" by (simp add: ascii_def)
  from conjI [OF d conjI [OF split_four_fields [OF c1 c2 c3 c4] conjI [OF p ne]]]
  show ?thesis .
qed

text \<open>
  Claim C3, amended. A line of four comma-free fields joined by commas always yields a
  record. Its second and third fields are the line's, character for character; its first
  field is the line's without leading whitespace and its fourth the line's without trailing
  whitespace, because the line as a whole is trimmed and no field is trimmed on its own.
\<close>

theorem four_fields_yield_record:
  assumes "utf8_decode line = Inr (f1 @ comma # f2 @ comma # f3 @ comma # f4)"
    and "comma \<notin> set f1" "comma \<notin> set f2" "comma \<notin> set f3" "comma \<notin> set f4"
  shows "parse_row line =
         Inr (Some \<lparr>patient_id = lstrip f1, event_time = f2, event_type = f3,
                    row_value = rstrip f4\<rparr>)"
  using assms by (rule parse_row_fields)

theorem four_fields_yield_record_witness:
  "utf8_decode ('' P001,2023-01-01T00:00:00Z, heart_rate ,75 '' @ [CHR 0x0A]) =
     Inr (ascii '' P001'' @ comma # ascii ''2023-01-01T00:00:00Z'' @ comma #
          ascii '' heart_rate '' @ comma # ascii ''75 '' @ [0x0A]) \<and>
   comma \<notin> set (ascii '' P001'') \<and> comma \<notin> set (ascii ''2023-01-01T00:00:00Z'') \<and>
   comma \<notin> set (ascii '' heart_rate '') \<and> comma \<notin> set (ascii ''75 '' @ [0x0A]) \<and>
   parse_row ('' P001,2023-01-01T00:00:00Z, heart_rate ,75 '' @ [CHR 0x0A]) =
     Inr (Some \<lparr>patient_id = ascii ''P001'', event_time = ascii ''2023-01-01T00:00:00Z'',
                event_type = ascii '' heart_rate '', row_value = ascii ''75''\<rparr>)"
proof -
  have "utf8_decode ('' P001,2023-01-01T00:00:00Z, heart_rate ,75 '' @ [CHR 0x0A]) =
        Inr (ascii ('' P001,2023-01-01T00:00:00Z, heart_rate ,75 '' @ [CHR 0x0A]))"
    by (rule utf8_decode_ascii) simp
  moreover have "ascii ('' P001,2023-01-01T00:00:00Z, heart_rate ,75 '' @ [CHR 0x0A]) =
        ascii '' P001'' @ comma # ascii ''2023-01-01T00:00:00Z'' @ comma #
          ascii '' heart_rate '' @ comma # ascii ''75 '' @ [0x0A]"
    by (simp add: ascii_def comma_def)
  ultimately have d: "utf8_decode ('' P001,2023-01-01T00:00:00Z, heart_rate ,75 '' @ [CHR 0x0A]) =
     Inr (ascii '' P001'' @ comma # ascii ''2023-01-01T00:00:00Z'' @ comma #
          ascii '' heart_rate '' @ comma # ascii ''75 '' @ [0x0A])"
    by (simp only:)
  have c1: "comma \<notin> set (ascii '' P001'')" by (simp add: ascii_def comma_def)
  have c2: "comma \<notin> set (ascii ''2023-01-01T00:00:00Z'')" by (simp add: ascii_def comma_def)
  have c3: "comma \<notin> set (ascii '' heart_rate '')" by (simp add: ascii_def comma_def)
  have c4: "comma \<notin> set (ascii ''75 '' @ [0x0A])" by (simp add: ascii_def comma_def)
  have l: "lstrip (ascii '' P001'') = ascii ''P001''"
    by (simp add: lstrip_def ascii_def isspace_def)
  have r: "rstrip (ascii ''75 '' @ [0x0A]) = ascii ''75''"
    by (simp add: rstrip_def ascii_def isspace_def)
  have p: "parse_row ('' P001,2023-01-01T00:00:00Z, heart_rate ,75 '' @ [CHR 0x0A]) =
     Inr (Some \<lparr>patient_id = ascii ''P001'', event_time = ascii ''2023-01-01T00:00:00Z'',
                event_type = ascii '' heart_rate '', row_value = ascii ''75''\<rparr>)"
    using four_fields_yield_record [OF d c1 c2 c3 c4] by (simp only: l r)
  from conjI [OF d conjI [OF c1 conjI [OF c2 conjI [OF c3 conjI [OF c4 p]]]]]
  show ?thesis .
qed

text \<open>
  Claim C10. A line with exactly three commas after trimming yields a record whose fields
  are the four pieces between the commas, empty or not, and the record is counted: the
  entry for its patient and event type and the total for its event type each grow by one.
  Nothing is assumed about the fields, so the line \<open>",,,"\<close> gives the record of four empty
  strings, and the empty patient and the empty event type are counted once.
\<close>

theorem three_commas_yield_record:
  assumes "utf8_decode line = Inr s" and "count_list (strip s) comma = 3"
  shows "\<exists>r. parse_row line = Inr (Some r) \<and>
             [patient_id r, event_time r, event_type r, row_value r] = split_on comma (strip s) \<and>
             process_line st line = Inr (apply_record st r) \<and>
             count_of (apply_record st r) (patient_id r) (event_type r) =
               count_of st (patient_id r) (event_type r) + 1 \<and>
             total_of (apply_record st r) (event_type r) = total_of st (event_type r) + 1"
proof -
  have len: "length (split_on comma (strip s)) = 4"
    using assms(2) by (simp add: length_split_on)
  then have "length (split_on comma s) = 4" by (simp add: length_split_strip)
  from parse_row_four [OF assms(1) this] four_fields [OF len] show ?thesis
    by (simp add: process_line_def count_of_apply total_of_apply)
qed

theorem three_commas_yield_record_witness:
  "utf8_decode '',,,'' = Inr (ascii '',,,'') \<and> count_list (strip (ascii '',,,'')) comma = 3 \<and>
   split_on comma (strip (ascii '',,,'')) = [[], [], [], []] \<and>
   (\<exists>r. parse_row '',,,'' = Inr (Some r) \<and>
        [patient_id r, event_time r, event_type r, row_value r] =
          split_on comma (strip (ascii '',,,'')) \<and>
        process_line init_state '',,,'' = Inr (apply_record init_state r) \<and>
        count_of (apply_record init_state r) (patient_id r) (event_type r) =
          count_of init_state (patient_id r) (event_type r) + 1 \<and>
        total_of (apply_record init_state r) (event_type r) =
          total_of init_state (event_type r) + 1)"
proof -
  have d: "utf8_decode '',,,'' = Inr (ascii '',,,'')"
    by (rule utf8_decode_ascii) simp
  have "count_list (ascii '',,,'') comma = 3"
    by (simp add: ascii_def comma_def)
  then have c: "count_list (strip (ascii '',,,'')) comma = 3"
    by (simp only: count_list_strip)
  have e: "ascii '',,,'' = [] @ comma # [] @ comma # [] @ comma # []"
    by (simp add: ascii_def comma_def)
  have s: "split_on comma (strip (ascii '',,,'')) = [[], [], [], []]"
    unfolding e using strip_four_fields [of "[]" "[]" "[]" "[]"]
    by (simp add: lstrip_def rstrip_def)
  from three_commas_yield_record [OF d c, of init_state] d c s show ?thesis by blast
qed

section \<open>The emitted result\<close>

lemma make_output_ordered:
  "make_output (apply_records init_state rs) = ordered_output rs"
proof -
  let ?st = "apply_records init_state rs"
  have inner: "counts_json (dict_get (patient_counts ?st) [] p) =
        JObj (map (\<lambda>t. (t, JInt (times_seen (\<lambda>r. patient_id r = p \<and> event_type r = t) rs)))
               (first_seen (map event_type (filter (\<lambda>r. patient_id r = p) rs))))" for p
  proof -
    have "map (\<lambda>(t, c). (t, JInt c)) (dict_get (patient_counts ?st) [] p) =
          map (\<lambda>(t, c). (t, JInt c))
            (map (\<lambda>t. (t, dict_get (dict_get (patient_counts ?st) [] p) 0 t))
               (keys (dict_get (patient_counts ?st) [] p)))"
      by (simp only: dict_by_keys [OF distinct_inner])
    then show ?thesis
      by (simp add: counts_json_def inner_order o_def count_of_records [unfolded count_of_def])
  qed
  have "map (\<lambda>(p, inner). (p, counts_json inner)) (patient_counts ?st) =
        map (\<lambda>(p, inner). (p, counts_json inner))
          (map (\<lambda>p. (p, dict_get (patient_counts ?st) [] p)) (keys (patient_counts ?st)))"
    by (simp only: dict_by_keys [OF distinct_patients])
  then have patients: "map (\<lambda>(p, inner). (p, counts_json inner)) (patient_counts ?st) =
        map (\<lambda>p. (p, JObj (map (\<lambda>t. (t, JInt (times_seen
                                    (\<lambda>r. patient_id r = p \<and> event_type r = t) rs)))
               (first_seen (map event_type (filter (\<lambda>r. patient_id r = p) rs))))))
          (first_seen (map patient_id rs))"
    by (simp add: patient_order o_def inner)
  have "map (\<lambda>(t, c). (t, JInt c)) (total_counts ?st) =
        map (\<lambda>(t, c). (t, JInt c))
          (map (\<lambda>t. (t, dict_get (total_counts ?st) 0 t)) (keys (total_counts ?st)))"
    by (simp only: dict_by_keys [OF distinct_totals])
  then have totals: "counts_json (total_counts ?st) =
        JObj (map (\<lambda>t. (t, JInt (times_seen (\<lambda>r. event_type r = t) rs)))
               (first_seen (map event_type rs)))"
    by (simp add: counts_json_def total_order o_def total_of_records [unfolded total_of_def])
  show ?thesis
    by (simp only: make_output_def ordered_output_def patients totals)
qed

lemma join_member_lines:
  "ms \<noteq> [] \<Longrightarrow>
   newline_indent depth @
   join ('','' @ newline_indent depth) (map (\<lambda>(k, v). encode_string k @ '': '' @ v) ms) =
   member_lines depth ms"
proof (induction depth ms rule: member_lines.induct)
  case (1 depth)
  then show ?case by simp
next
  case (2 depth k v)
  show ?case by (simp add: newline_indent_def)
next
  case (3 depth k v m ms)
  then have "newline_indent depth @
      join ('','' @ newline_indent depth)
        (map (\<lambda>(k, v). encode_string k @ '': '' @ v) (m # ms)) =
      member_lines depth (m # ms)"
    by simp
  then show ?case by (simp add: newline_indent_def)
qed

lemma encode_members:
  "encode level (JObj kvs) = members_text level (map (\<lambda>(k, v). (k, encode (Suc level) v)) kvs)"
proof (cases "kvs = []")
  case True
  then show ?thesis by (simp add: members_text_def)
next
  case False
  then have ne: "map (\<lambda>(k, v). (k, encode (Suc level) v)) kvs \<noteq> []" by simp
  have "map (\<lambda>(k, v). encode_string k @ '': '' @ encode (Suc level) v) kvs =
        map (\<lambda>(k, v). encode_string k @ '': '' @ v)
          (map (\<lambda>(k, v). (k, encode (Suc level) v)) kvs)"
    by (simp add: o_def split_def)
  then have "newline_indent (Suc level) @
        join ('','' @ newline_indent (Suc level))
          (map (\<lambda>(k, v). encode_string k @ '': '' @ encode (Suc level) v) kvs) =
        member_lines (Suc level) (map (\<lambda>(k, v). (k, encode (Suc level) v)) kvs)"
    using join_member_lines [OF ne, of "Suc level"] by (simp only:)
  then have "encode level (JObj kvs) =
        ''{'' @ member_lines (Suc level) (map (\<lambda>(k, v). (k, encode (Suc level) v)) kvs) @
        newline_indent level @ ''}''"
    using False by simp
  then show ?thesis using ne by (simp add: members_text_def newline_indent_def)
qed

lemma json_dumps_ordered: "json_dumps (ordered_output rs) = ordered_text rs"
  by (simp add: json_dumps_def ordered_output_def ordered_text_def encode_members o_def
      numeral_2_eq_2 del: encode.simps(7))

lemma emit_stdout:
  "stdout (snd (emit env output output_file w)) = stdout w @ json_dumps output @ [CHR 0x0A]"
  by (simp add: emit_def Let_def split: option.splits)

text \<open>The text printed for the empty counters and for one row, as Python prints it.\<close>

lemma empty_result_text:
  "json_dumps (make_output init_state) =
   ''{'' @ [CHR 0x0A] @
   ''  '' @ dq @ ''patients'' @ dq @ '': {},'' @ [CHR 0x0A] @
   ''  '' @ dq @ ''totals'' @ dq @ '': {}'' @ [CHR 0x0A] @
   ''}''"
  by code_simp

lemma single_row_text:
  "json_dumps (make_output (apply_records init_state [example_record ''P001'' ''heart_rate''])) =
   ''{'' @ [CHR 0x0A] @
   ''  '' @ dq @ ''patients'' @ dq @ '': {'' @ [CHR 0x0A] @
   ''    '' @ dq @ ''P001'' @ dq @ '': {'' @ [CHR 0x0A] @
   ''      '' @ dq @ ''heart_rate'' @ dq @ '': 1'' @ [CHR 0x0A] @
   ''    }'' @ [CHR 0x0A] @
   ''  },'' @ [CHR 0x0A] @
   ''  '' @ dq @ ''totals'' @ dq @ '': {'' @ [CHR 0x0A] @
   ''    '' @ dq @ ''heart_rate'' @ dq @ '': 1'' @ [CHR 0x0A] @
   ''  }'' @ [CHR 0x0A] @
   ''}''"
  by code_simp

text \<open>
  Claim C6. Whenever emission succeeds, the serialized text, followed by the line end that
  \<open>print\<close> adds, has been appended to standard output; and when an output path was given, the
  file at that path holds exactly the serialized text, whatever it held before, and no other
  file has changed. A path is a non-empty string: line 174 tests the truth value of
  \<open>output_file\<close>, so the empty string is treated like \<open>None\<close>.
\<close>

theorem emit_writes_stdout_and_file:
  assumes "emit env (make_output st) output_file w = (Inr (), w')"
  shows "stdout w' = stdout w @ json_dumps (make_output st) @ [CHR 0x0A] \<and>
         (\<forall>path. output_file = Some path \<and> path \<noteq> [] \<longrightarrow>
            files w' path = Some (json_dumps (make_output st)) \<and>
            (\<forall>q. q \<noteq> path \<longrightarrow> files w' q = files w q))"
  using assms by (auto simp: emit_def Let_def split: option.splits if_splits)

theorem emit_writes_stdout_and_file_witness:
  "files stale_world (ascii ''out.json'') = Some ''stale content'' \<and>
   fst (emit example_env (make_output init_state) (Some (ascii ''out.json'')) stale_world) =
     Inr () \<and>
   stdout (snd (emit example_env (make_output init_state) (Some (ascii ''out.json''))
     stale_world)) = ''earlier output'' @ json_dumps (make_output init_state) @ [CHR 0x0A] \<and>
   files (snd (emit example_env (make_output init_state) (Some (ascii ''out.json''))
     stale_world)) (ascii ''out.json'') = Some (json_dumps (make_output init_state))"
proof -
  have ne: "ascii ''out.json'' \<noteq> []" by (simp add: ascii_def)
  have ok: "fst (emit example_env (make_output init_state) (Some (ascii ''out.json''))
              stale_world) = Inr ()"
    by (simp add: emit_def Let_def example_env_def ne)
  then have h: "emit example_env (make_output init_state) (Some (ascii ''out.json''))
              stale_world =
            (Inr (), snd (emit example_env (make_output init_state) (Some (ascii ''out.json''))
              stale_world))"
    by (metis prod.collapse)
  have old: "files stale_world (ascii ''out.json'') = Some ''stale content''"
    by (simp add: stale_world_def)
  have out: "stdout stale_world = ''earlier output''"
    by (simp add: stale_world_def)
  from emit_writes_stdout_and_file [OF h] ne old ok show ?thesis
    by (simp add: out)
qed

text \<open>
  Claim C7. Emitting the same state twice in a row appends the same text to standard output
  both times, the serialization of the state followed by a line end, whatever was printed
  or written before; and the second emission leaves every file as the first one left it.
\<close>

theorem emission_deterministic:
  "stdout (snd (emit env (make_output st) output_file w)) =
     stdout w @ json_dumps (make_output st) @ [CHR 0x0A] \<and>
   stdout (snd (emit env (make_output st) output_file
                  (snd (emit env (make_output st) output_file w)))) =
     stdout (snd (emit env (make_output st) output_file w)) @
       json_dumps (make_output st) @ [CHR 0x0A] \<and>
   files (snd (emit env (make_output st) output_file
                 (snd (emit env (make_output st) output_file w)))) =
     files (snd (emit env (make_output st) output_file w))"
  by (auto simp: emit_def Let_def split: option.splits)

theorem emission_deterministic_witness:
  "stdout (snd (emit example_env (make_output init_state) (Some (ascii ''out.json''))
     (snd (emit example_env (make_output init_state) (Some (ascii ''out.json''))
        stale_world)))) =
   ''earlier output'' @ json_dumps (make_output init_state) @ [CHR 0x0A] @
     json_dumps (make_output init_state) @ [CHR 0x0A]"
  using emission_deterministic [of example_env init_state "Some (ascii ''out.json'')" stale_world]
  by (simp add: stale_world_def)

section \<open>Runs\<close>

lemma process_lines_rows:
  "process_lines st lines = Inr st' \<Longrightarrow> st' = apply_records st (rows_of_lines lines)"
proof (induction st lines rule: process_lines.induct)
  case (1 st)
  then show ?case by (simp add: apply_records_def)
next
  case (2 st e rest)
  then show ?case by simp
next
  case (3 st line rest)
  then show ?case
    by (auto simp: bind_def process_line_def apply_records_def split: sum.splits option.splits)
qed

lemma process_lines_ok:
  "lines_ok lines \<Longrightarrow> process_lines st lines = Inr (apply_records st (rows_of_lines lines))"
proof (induction st lines rule: process_lines.induct)
  case (1 st)
  then show ?case by (simp add: apply_records_def)
next
  case (2 st e rest)
  then show ?case by simp
next
  case (3 st line rest)
  then show ?case
    by (auto simp: bind_def process_line_def apply_records_def split: sum.splits option.splits)
qed

lemma process_download_ok:
  assumes "urlopen env n (DataUrl eid d) = Inr (Inr header # lines)" and "lines_ok lines"
  shows "process_download env eid n st d = Inr (apply_records st (rows_of_lines lines))"
  using assms by (simp add: process_download_def bind_def process_lines_ok)

text \<open>Every state a run ends its downloads with is reached from the empty counters by
  applying records.\<close>

lemma process_downloads_records:
  "process_downloads env eid ids n st ds = Inr st' \<Longrightarrow> \<exists>rs. st' = apply_records st rs"
proof (induction env eid ids n st ds rule: process_downloads.induct)
  case (1 env eid ids n st)
  then have "st' = apply_records st []" by (simp add: apply_records_def)
  then show ?case by blast
next
  case (2 env eid ids n st d rest)
  from "2.prems" have idx: "has_index ids" by (auto split: if_splits)
  with "2.prems" obtain st1 where
    one: "process_download env eid n st d = Inr st1" and
    more: "process_downloads env eid ids (Suc n) st1 rest = Inr st'"
    by (auto simp: bind_def split: sum.splits)
  from one obtain lines where "process_lines st lines = Inr st1"
    by (auto simp: process_download_def bind_def split: sum.splits)
  then have a: "st1 = apply_records st (rows_of_lines lines)" by (rule process_lines_rows)
  from "2.IH" [OF _ more] idx obtain rs where "st' = apply_records st1 rs" by auto
  with a have "st' = apply_records st (rows_of_lines lines @ rs)"
    by (simp add: apply_records_append)
  then show ?case by blast
qed

lemma aggregate_records: "aggregate env eid = Inr st \<Longrightarrow> \<exists>rs. st = apply_records init_state rs"
  by (auto simp: aggregate_def bind_def split: sum.splits dest: process_downloads_records)

lemma parse_row_ascii:
  assumes "list_all (\<lambda>c. of_char c < (0x80 :: nat)) line"
    and "ascii line = f1 @ comma # f2 @ comma # f3 @ comma # f4"
    and "comma \<notin> set f1" "comma \<notin> set f2" "comma \<notin> set f3" "comma \<notin> set f4"
  shows "parse_row line =
         Inr (Some \<lparr>patient_id = lstrip f1, event_time = f2, event_type = f3,
                    row_value = rstrip f4\<rparr>)"
proof -
  have "utf8_decode line = Inr (f1 @ comma # f2 @ comma # f3 @ comma # f4)"
    using utf8_decode_ascii [OF assms(1)] by (simp only: assms(2))
  then show ?thesis using assms(3-6) by (rule parse_row_fields)
qed

lemma example_row_a:
  "parse_row (''P001,2023-01-01T00:00:00Z,heart_rate,75'' @ [CHR 0x0A]) =
   Inr (Some \<lparr>patient_id = ascii ''P001'', event_time = ascii ''2023-01-01T00:00:00Z'',
              event_type = ascii ''heart_rate'', row_value = ascii ''75''\<rparr>)"
proof -
  have l: "lstrip (ascii ''P001'') = ascii ''P001''"
    by (simp add: lstrip_def ascii_def isspace_def)
  have r: "rstrip (ascii ''75'' @ [0x0A]) = ascii ''75''"
    by (simp add: rstrip_def ascii_def isspace_def)
  have "parse_row (''P001,2023-01-01T00:00:00Z,heart_rate,75'' @ [CHR 0x0A]) =
        Inr (Some \<lparr>patient_id = lstrip (ascii ''P001''),
                   event_time = ascii ''2023-01-01T00:00:00Z'',
                   event_type = ascii ''heart_rate'',
                   row_value = rstrip (ascii ''75'' @ [0x0A])\<rparr>)"
    by (rule parse_row_ascii) (simp_all add: ascii_def comma_def)
  then show ?thesis by (simp only: l r)
qed

lemma example_row_b:
  "parse_row (''P001,2023-01-02T00:00:00Z,heart_rate,80'' @ [CHR 0x0A]) =
   Inr (Some \<lparr>patient_id = ascii ''P001'', event_time = ascii ''2023-01-02T00:00:00Z'',
              event_type = ascii ''heart_rate'', row_value = ascii ''80''\<rparr>)"
proof -
  have l: "lstrip (ascii ''P001'') = ascii ''P001''"
    by (simp add: lstrip_def ascii_def isspace_def)
  have r: "rstrip (ascii ''80'' @ [0x0A]) = ascii ''80''"
    by (simp add: rstrip_def ascii_def isspace_def)
  have "parse_row (''P001,2023-01-02T00:00:00Z,heart_rate,80'' @ [CHR 0x0A]) =
        Inr (Some \<lparr>patient_id = lstrip (ascii ''P001''),
                   event_time = ascii ''2023-01-02T00:00:00Z'',
                   event_type = ascii ''heart_rate'',
                   row_value = rstrip (ascii ''80'' @ [0x0A])\<rparr>)"
    by (rule parse_row_ascii) (simp_all add: ascii_def comma_def)
  then show ?thesis by (simp only: l r)
qed

lemma example_resolve:
  "resolve example_env (ascii ''demo'') = Inr (JArr [JStr (ascii ''a''), JStr (ascii ''b'')])"
proof -
  have "utf8_decode example_body = Inr (ascii example_body)"
    by (rule utf8_decode_ascii) (simp add: example_body_def dq_def)
  then show ?thesis
    by (simp add: resolve_def bind_def example_env_def example_document_def)
qed

text \<open>
  Claim C9. When the export resolves to the two downloads \<open>d1\<close> and \<open>d2\<close>, fetched in that
  order, and each download gives a header line and lines that are read without error and
  contain exactly one valid row, the two rows having the same patient and the same event
  type, the run prints the result whose only patient entry and only total are both 2.
\<close>

theorem counts_merge_across_downloads:
  assumes "resolve env eid = Inr (JArr [d1, d2])"
    and "urlopen env 1 (DataUrl eid d1) = Inr (Inr header1 # lines1)"
    and "urlopen env 2 (DataUrl eid d2) = Inr (Inr header2 # lines2)"
    and "lines_ok lines1" and "rows_of_lines lines1 = [r1]"
    and "lines_ok lines2" and "rows_of_lines lines2 = [r2]"
    and "patient_id r2 = patient_id r1" and "event_type r2 = event_type r1"
  shows "\<exists>st. aggregate env eid = Inr st \<and>
           stdout (snd (process_data env eid output_file w)) =
             stdout w @ json_dumps (make_output st) @ [CHR 0x0A] \<and>
           make_output st =
             JObj [(ascii ''patients'', JObj [(patient_id r1, JObj [(event_type r1, JInt 2)])]),
                   (ascii ''totals'', JObj [(event_type r1, JInt 2)])] \<and>
           json_path (make_output st) [ascii ''patients'', patient_id r1, event_type r1] =
             Inr (JInt 2) \<and>
           json_path (make_output st) [ascii ''totals'', event_type r1] = Inr (JInt 2)"
proof -
  let ?st = "\<lparr>patient_counts = [(patient_id r1, [(event_type r1, 2)])],
              total_counts = [(event_type r1, 2)]\<rparr>"
  have first: "process_download env eid (Suc 0) init_state d1 =
               Inr (apply_records init_state [r1])"
    using process_download_ok [OF assms(2) assms(4)] assms(5) by simp
  have second: "process_download env eid (Suc (Suc 0)) (apply_records init_state [r1]) d2 =
                Inr (apply_records (apply_records init_state [r1]) [r2])"
    using process_download_ok [OF assms(3) assms(6)] assms(7) by (simp add: numeral_2_eq_2)
  have final: "apply_records (apply_records init_state [r1]) [r2] = ?st"
    by (simp add: apply_records_def apply_record_def init_state_def assms(8) assms(9))
  have agg: "aggregate env eid = Inr ?st"
    by (simp add: aggregate_def assms(1) bind_def first second final)
  have out: "make_output ?st =
             JObj [(ascii ''patients'', JObj [(patient_id r1, JObj [(event_type r1, JInt 2)])]),
                   (ascii ''totals'', JObj [(event_type r1, JInt 2)])]"
    by (simp add: make_output_def counts_json_def)
  have pd: "stdout (snd (process_data env eid output_file w)) =
             stdout w @ json_dumps (make_output ?st) @ [CHR 0x0A]"
    by (simp add: process_data_def agg emit_stdout)
  have p1: "json_path (make_output ?st) [ascii ''patients'', patient_id r1, event_type r1] =
            Inr (JInt 2)"
    by (simp add: out bind_def)
  have p2: "json_path (make_output ?st) [ascii ''totals'', event_type r1] = Inr (JInt 2)"
    by (simp add: out bind_def ascii_def)
  from agg pd out p1 p2 show ?thesis by blast
qed

theorem counts_merge_across_downloads_witness:
  "resolve example_env (ascii ''demo'') = Inr (JArr [JStr (ascii ''a''), JStr (ascii ''b'')]) \<and>
   rows_of_lines [Inr (''P001,2023-01-01T00:00:00Z,heart_rate,75'' @ [CHR 0x0A])] =
     [\<lparr>patient_id = ascii ''P001'', event_time = ascii ''2023-01-01T00:00:00Z'',
       event_type = ascii ''heart_rate'', row_value = ascii ''75''\<rparr>] \<and>
   rows_of_lines [Inr (''P001,2023-01-02T00:00:00Z,heart_rate,80'' @ [CHR 0x0A])] =
     [\<lparr>patient_id = ascii ''P001'', event_time = ascii ''2023-01-02T00:00:00Z'',
       event_type = ascii ''heart_rate'', row_value = ascii ''80''\<rparr>] \<and>
   (\<exists>st. aggregate example_env (ascii ''demo'') = Inr st \<and>
      stdout (snd (process_data example_env (ascii ''demo'') None empty_world)) =
        stdout empty_world @ json_dumps (make_output st) @ [CHR 0x0A] \<and>
      make_output st =
        JObj [(ascii ''patients'',
               JObj [(ascii ''P001'', JObj [(ascii ''heart_rate'', JInt 2)])]),
              (ascii ''totals'', JObj [(ascii ''heart_rate'', JInt 2)])] \<and>
      json_path (make_output st) [ascii ''patients'', ascii ''P001'', ascii ''heart_rate''] =
        Inr (JInt 2) \<and>
      json_path (make_output st) [ascii ''totals'', ascii ''heart_rate''] = Inr (JInt 2))"
proof -
  let ?a = "''P001,2023-01-01T00:00:00Z,heart_rate,75'' @ [CHR 0x0A]"
  let ?b = "''P001,2023-01-02T00:00:00Z,heart_rate,80'' @ [CHR 0x0A]"
  let ?r1 = "\<lparr>patient_id = ascii ''P001'', event_time = ascii ''2023-01-01T00:00:00Z'',
       event_type = ascii ''heart_rate'', row_value = ascii ''75''\<rparr>"
  let ?r2 = "\<lparr>patient_id = ascii ''P001'', event_time = ascii ''2023-01-02T00:00:00Z'',
       event_type = ascii ''heart_rate'', row_value = ascii ''80''\<rparr>"
  have u1: "urlopen example_env 1 (DataUrl (ascii ''demo'') (JStr (ascii ''a''))) =
            Inr (Inr header_line # [Inr ?a])"
    by (simp add: example_env_def)
  have u2: "urlopen example_env 2 (DataUrl (ascii ''demo'') (JStr (ascii ''b''))) =
            Inr (Inr header_line # [Inr ?b])"
    by (simp add: example_env_def ascii_def)
  have ok1: "lines_ok [Inr ?a]" by (simp only: lines_ok.simps rows_of_lines.simps example_row_a sum.case option.case)
  have ok2: "lines_ok [Inr ?b]" by (simp only: lines_ok.simps rows_of_lines.simps example_row_b sum.case option.case)
  have rows1: "rows_of_lines [Inr ?a] = [?r1]" by (simp only: lines_ok.simps rows_of_lines.simps example_row_a sum.case option.case)
  have rows2: "rows_of_lines [Inr ?b] = [?r2]" by (simp only: lines_ok.simps rows_of_lines.simps example_row_b sum.case option.case)
  have p: "patient_id ?r2 = patient_id ?r1" by simp
  have t: "event_type ?r2 = event_type ?r1" by simp
  from counts_merge_across_downloads [OF example_resolve u1 u2 ok1 rows1 ok2 rows2 p t,
      of None empty_world]
  have "\<exists>st. aggregate example_env (ascii ''demo'') = Inr st \<and>
      stdout (snd (process_data example_env (ascii ''demo'') None empty_world)) =
        stdout empty_world @ json_dumps (make_output st) @ [CHR 0x0A] \<and>
      make_output st =
        JObj [(ascii ''patients'',
               JObj [(ascii ''P001'', JObj [(ascii ''heart_rate'', JInt 2)])]),
              (ascii ''totals'', JObj [(ascii ''heart_rate'', JInt 2)])] \<and>
      json_path (make_output st) [ascii ''patients'', ascii ''P001'', ascii ''heart_rate''] =
        Inr (JInt 2) \<and>
      json_path (make_output st) [ascii ''totals'', ascii ''heart_rate''] = Inr (JInt 2)"
    by simp
  with example_resolve rows1 rows2 show ?thesis by (intro conjI)
qed

subsection \<open>Key order of the emitted text\<close>

lemma skip_header_drop: "skip_header response = Inr lines \<Longrightarrow> lines = drop 1 response"
  by (cases response rule: skip_header.cases) auto

lemma process_download_stream:
  assumes "process_download env eid n st d = Inr st1"
  shows "st1 = apply_records st (record_stream env eid n [d])"
proof -
  from assms obtain response lines where
    u: "urlopen env n (DataUrl eid d) = Inr response" and
    h: "skip_header response = Inr lines" and
    p: "process_lines st lines = Inr st1"
    by (auto simp: process_download_def bind_def split: sum.splits)
  from p have "st1 = apply_records st (rows_of_lines lines)" by (rule process_lines_rows)
  then show ?thesis using u skip_header_drop [OF h] by simp
qed

lemma record_stream_Cons:
  "record_stream env eid n (d # ds) = record_stream env eid n [d] @ record_stream env eid (Suc n) ds"
  by simp

lemma process_downloads_stream:
  "process_downloads env eid ids n st ds = Inr st' \<Longrightarrow>
   st' = apply_records st (record_stream env eid n ds)"
proof (induction env eid ids n st ds rule: process_downloads.induct)
  case (1 env eid ids n st)
  then show ?case by (simp add: apply_records_def)
next
  case (2 env eid ids n st d rest)
  from "2.prems" have idx: "has_index ids" by (auto split: if_splits)
  with "2.prems" obtain st1 where
    one: "process_download env eid n st d = Inr st1" and
    more: "process_downloads env eid ids (Suc n) st1 rest = Inr st'"
    by (auto simp: bind_def split: sum.splits)
  from one have a: "st1 = apply_records st (record_stream env eid n [d])"
    by (rule process_download_stream)
  from "2.IH" [OF _ more] idx
  have "st' = apply_records st1 (record_stream env eid (Suc n) rest)" by simp
  with a show ?case
    by (simp only: record_stream_Cons [of env eid n d rest] apply_records_append)
qed

lemma aggregate_stream:
  assumes "resolve env eid = Inr (JArr ids)" and "aggregate env eid = Inr st"
  shows "st = apply_records init_state (record_stream env eid 1 ids)"
proof -
  from assms have "process_downloads env eid (JArr ids) 1 init_state ids = Inr st"
    by (simp add: aggregate_def bind_def)
  then show ?thesis by (rule process_downloads_stream)
qed

lemma order_row_1:
  "parse_row (''P002,2023-01-01T00:00:00Z,spo2,98'' @ [CHR 0x0A]) =
   Inr (Some \<lparr>patient_id = ascii ''P002'', event_time = ascii ''2023-01-01T00:00:00Z'',
              event_type = ascii ''spo2'', row_value = ascii ''98''\<rparr>)"
proof -
  have l: "lstrip (ascii ''P002'') = ascii ''P002''"
    by (simp add: lstrip_def ascii_def isspace_def)
  have r: "rstrip (ascii ''98'' @ [0x0A]) = ascii ''98''"
    by (simp add: rstrip_def ascii_def isspace_def)
  have "parse_row (''P002,2023-01-01T00:00:00Z,spo2,98'' @ [CHR 0x0A]) =
        Inr (Some \<lparr>patient_id = lstrip (ascii ''P002''),
                   event_time = ascii ''2023-01-01T00:00:00Z'',
                   event_type = ascii ''spo2'',
                   row_value = rstrip (ascii ''98'' @ [0x0A])\<rparr>)"
    by (rule parse_row_ascii) (simp_all add: ascii_def comma_def)
  then show ?thesis by (simp only: l r)
qed

lemma order_row_2:
  "parse_row (''P001,2023-01-01T00:05:00Z,heart_rate,75'' @ [CHR 0x0A]) =
   Inr (Some \<lparr>patient_id = ascii ''P001'', event_time = ascii ''2023-01-01T00:05:00Z'',
              event_type = ascii ''heart_rate'', row_value = ascii ''75''\<rparr>)"
proof -
  have l: "lstrip (ascii ''P001'') = ascii ''P001''"
    by (simp add: lstrip_def ascii_def isspace_def)
  have r: "rstrip (ascii ''75'' @ [0x0A]) = ascii ''75''"
    by (simp add: rstrip_def ascii_def isspace_def)
  have "parse_row (''P001,2023-01-01T00:05:00Z,heart_rate,75'' @ [CHR 0x0A]) =
        Inr (Some \<lparr>patient_id = lstrip (ascii ''P001''),
                   event_time = ascii ''2023-01-01T00:05:00Z'',
                   event_type = ascii ''heart_rate'',
                   row_value = rstrip (ascii ''75'' @ [0x0A])\<rparr>)"
    by (rule parse_row_ascii) (simp_all add: ascii_def comma_def)
  then show ?thesis by (simp only: l r)
qed

lemma order_row_3:
  "parse_row (''P002,2023-01-02T00:00:00Z,heart_rate,80'' @ [CHR 0x0A]) =
   Inr (Some \<lparr>patient_id = ascii ''P002'', event_time = ascii ''2023-01-02T00:00:00Z'',
              event_type = ascii ''heart_rate'', row_value = ascii ''80''\<rparr>)"
proof -
  have l: "lstrip (ascii ''P002'') = ascii ''P002''"
    by (simp add: lstrip_def ascii_def isspace_def)
  have r: "rstrip (ascii ''80'' @ [0x0A]) = ascii ''80''"
    by (simp add: rstrip_def ascii_def isspace_def)
  have "parse_row (''P002,2023-01-02T00:00:00Z,heart_rate,80'' @ [CHR 0x0A]) =
        Inr (Some \<lparr>patient_id = lstrip (ascii ''P002''),
                   event_time = ascii ''2023-01-02T00:00:00Z'',
                   event_type = ascii ''heart_rate'',
                   row_value = rstrip (ascii ''80'' @ [0x0A])\<rparr>)"
    by (rule parse_row_ascii) (simp_all add: ascii_def comma_def)
  then show ?thesis by (simp only: l r)
qed

lemma order_resolve:
  "resolve order_env (ascii ''demo'') = Inr (JArr [JStr (ascii ''a''), JStr (ascii ''b'')])"
proof -
  have "utf8_decode example_body = Inr (ascii example_body)"
    by (rule utf8_decode_ascii) (simp add: example_body_def dq_def)
  then show ?thesis
    by (simp add: resolve_def bind_def order_env_def example_document_def)
qed

lemma drop_header: "drop 1 (x # xs) = xs"
  by simp

text \<open>
  Claim C8. For every run whose export lists the download identifiers \<open>ids\<close> and that gets as
  far as emitting, the text printed, and the text written to the output file when one is
  written, is \<open>ordered_text\<close> of the run's record stream. In that text the patients stand in
  the order their identifiers are first seen in the stream, each patient's event types in
  the order that patient's rows first show them, and the totals in the order the event
  types are first seen; nothing is sorted. The object serialized is \<open>ordered_output\<close> of the
  same stream.
\<close>

theorem keys_in_first_seen_order:
  assumes "resolve env eid = Inr (JArr ids)" and "aggregate env eid = Inr st"
  shows "make_output st = ordered_output (record_stream env eid 1 ids) \<and>
         stdout (snd (process_data env eid output_file w)) =
           stdout w @ ordered_text (record_stream env eid 1 ids) @ [CHR 0x0A] \<and>
         (\<forall>path. output_file = Some path \<and> path \<noteq> [] \<and> open_error env path = None \<longrightarrow>
            files (snd (process_data env eid output_file w)) path =
              Some (ordered_text (record_stream env eid 1 ids)))"
proof -
  have st: "st = apply_records init_state (record_stream env eid 1 ids)"
    using assms by (rule aggregate_stream)
  have obj: "make_output st = ordered_output (record_stream env eid 1 ids)"
    unfolding st by (rule make_output_ordered)
  have ser: "json_dumps (make_output st) = ordered_text (record_stream env eid 1 ids)"
    by (simp only: obj json_dumps_ordered)
  have pd: "process_data env eid out w = emit env (make_output st) out w" for out
    by (simp add: process_data_def assms(2))
  have out: "stdout (snd (process_data env eid output_file w)) =
           stdout w @ ordered_text (record_stream env eid 1 ids) @ [CHR 0x0A]"
    by (simp only: pd emit_stdout ser)
  have written:
    "\<forall>path. output_file = Some path \<and> path \<noteq> [] \<and> open_error env path = None \<longrightarrow>
            files (snd (process_data env eid output_file w)) path =
              Some (ordered_text (record_stream env eid 1 ids))"
    by (auto simp: pd emit_def Let_def ser)
  from obj out written show ?thesis by blast
qed

theorem keys_in_first_seen_order_witness:
  "aggregate order_env (ascii ''demo'') =
     Inr (apply_records init_state
       [\<lparr>patient_id = ascii ''P002'', event_time = ascii ''2023-01-01T00:00:00Z'',
          event_type = ascii ''spo2'', row_value = ascii ''98''\<rparr>,
        \<lparr>patient_id = ascii ''P001'', event_time = ascii ''2023-01-01T00:05:00Z'',
          event_type = ascii ''heart_rate'', row_value = ascii ''75''\<rparr>,
        \<lparr>patient_id = ascii ''P002'', event_time = ascii ''2023-01-02T00:00:00Z'',
          event_type = ascii ''heart_rate'', row_value = ascii ''80''\<rparr>]) \<and>
   resolve order_env (ascii ''demo'') = Inr (JArr [JStr (ascii ''a''), JStr (ascii ''b'')]) \<and>
   record_stream order_env (ascii ''demo'') 1 [JStr (ascii ''a''), JStr (ascii ''b'')] =
       [\<lparr>patient_id = ascii ''P002'', event_time = ascii ''2023-01-01T00:00:00Z'',
          event_type = ascii ''spo2'', row_value = ascii ''98''\<rparr>,
        \<lparr>patient_id = ascii ''P001'', event_time = ascii ''2023-01-01T00:05:00Z'',
          event_type = ascii ''heart_rate'', row_value = ascii ''75''\<rparr>,
        \<lparr>patient_id = ascii ''P002'', event_time = ascii ''2023-01-02T00:00:00Z'',
          event_type = ascii ''heart_rate'', row_value = ascii ''80''\<rparr>] \<and>
   stdout (snd (process_data order_env (ascii ''demo'') None empty_world)) =
     ''{'' @ [CHR 0x0A] @
     ''  '' @ dq @ ''patients'' @ dq @ '': {'' @ [CHR 0x0A] @
     ''    '' @ dq @ ''P002'' @ dq @ '': {'' @ [CHR 0x0A] @
     ''      '' @ dq @ ''spo2'' @ dq @ '': 1,'' @ [CHR 0x0A] @
     ''      '' @ dq @ ''heart_rate'' @ dq @ '': 1'' @ [CHR 0x0A] @
     ''    },'' @ [CHR 0x0A] @
     ''    '' @ dq @ ''P001'' @ dq @ '': {'' @ [CHR 0x0A] @
     ''      '' @ dq @ ''heart_rate'' @ dq @ '': 1'' @ [CHR 0x0A] @
     ''    }'' @ [CHR 0x0A] @
     ''  },'' @ [CHR 0x0A] @
     ''  '' @ dq @ ''totals'' @ dq @ '': {'' @ [CHR 0x0A] @
     ''    '' @ dq @ ''spo2'' @ dq @ '': 1,'' @ [CHR 0x0A] @
     ''    '' @ dq @ ''heart_rate'' @ dq @ '': 2'' @ [CHR 0x0A] @
     ''  }'' @ [CHR 0x0A] @
     ''}'' @ [CHR 0x0A]"
proof -
  let ?l1 = "''P002,2023-01-01T00:00:00Z,spo2,98'' @ [CHR 0x0A]"
  let ?l2 = "''P001,2023-01-01T00:05:00Z,heart_rate,75'' @ [CHR 0x0A]"
  let ?l3 = "''P002,2023-01-02T00:00:00Z,heart_rate,80'' @ [CHR 0x0A]"
  let ?r1 = "\<lparr>patient_id = ascii ''P002'', event_time = ascii ''2023-01-01T00:00:00Z'',
          event_type = ascii ''spo2'', row_value = ascii ''98''\<rparr>"
  let ?r2 = "\<lparr>patient_id = ascii ''P001'', event_time = ascii ''2023-01-01T00:05:00Z'',
          event_type = ascii ''heart_rate'', row_value = ascii ''75''\<rparr>"
  let ?r3 = "\<lparr>patient_id = ascii ''P002'', event_time = ascii ''2023-01-02T00:00:00Z'',
          event_type = ascii ''heart_rate'', row_value = ascii ''80''\<rparr>"
  have ua: "urlopen order_env n (DataUrl (ascii ''demo'') (JStr (ascii ''a''))) =
            Inr (Inr header_line # [Inr ?l1, Inr ?l2])" for n
    by (simp add: order_env_def)
  have ub: "urlopen order_env n (DataUrl (ascii ''demo'') (JStr (ascii ''b''))) =
            Inr (Inr header_line # [Inr ?l3])" for n
    by (simp add: order_env_def ascii_def)
  have rows_a: "rows_of_lines [Inr ?l1, Inr ?l2] = [?r1, ?r2]"
    by (simp only: rows_of_lines.simps order_row_1 order_row_2 sum.case option.case)
  have rows_b: "rows_of_lines [Inr ?l3] = [?r3]"
    by (simp only: rows_of_lines.simps order_row_3 sum.case option.case)
  have ok_a: "lines_ok [Inr ?l1, Inr ?l2]"
    by (simp only: lines_ok.simps order_row_1 order_row_2 sum.case)
  have ok_b: "lines_ok [Inr ?l3]"
    by (simp only: lines_ok.simps order_row_3 sum.case)
  have "record_stream order_env (ascii ''demo'') 1 [JStr (ascii ''a''), JStr (ascii ''b'')] =
        rows_of_lines [Inr ?l1, Inr ?l2] @ rows_of_lines [Inr ?l3] @ []"
    by (simp only: record_stream.simps ua ub sum.case drop_header)
  also have "\<dots> = [?r1, ?r2] @ [?r3] @ []"
    by (simp only: rows_a rows_b)
  also have "\<dots> = [?r1, ?r2, ?r3]"
    by simp
  finally have stream:
    "record_stream order_env (ascii ''demo'') 1 [JStr (ascii ''a''), JStr (ascii ''b'')] =
     [?r1, ?r2, ?r3]" .
  have da: "process_download order_env (ascii ''demo'') n st (JStr (ascii ''a'')) =
            Inr (apply_records st [?r1, ?r2])" for n st
    using process_download_ok [OF ua ok_a] by (simp only: rows_a)
  have db: "process_download order_env (ascii ''demo'') n st (JStr (ascii ''b'')) =
            Inr (apply_records st [?r3])" for n st
    using process_download_ok [OF ub ok_b] by (simp only: rows_b)
  have "apply_records (apply_records init_state [?r1, ?r2]) [?r3] =
        apply_records init_state [?r1, ?r2, ?r3]"
    by (simp add: apply_records_def)
  then have agg: "aggregate order_env (ascii ''demo'') =
                  Inr (apply_records init_state [?r1, ?r2, ?r3])"
    by (simp add: aggregate_def order_resolve bind_def da db)
  have shown: "ordered_text [?r1, ?r2, ?r3] =
     ''{'' @ [CHR 0x0A] @
     ''  '' @ dq @ ''patients'' @ dq @ '': {'' @ [CHR 0x0A] @
     ''    '' @ dq @ ''P002'' @ dq @ '': {'' @ [CHR 0x0A] @
     ''      '' @ dq @ ''spo2'' @ dq @ '': 1,'' @ [CHR 0x0A] @
     ''      '' @ dq @ ''heart_rate'' @ dq @ '': 1'' @ [CHR 0x0A] @
     ''    },'' @ [CHR 0x0A] @
     ''    '' @ dq @ ''P001'' @ dq @ '': {'' @ [CHR 0x0A] @
     ''      '' @ dq @ ''heart_rate'' @ dq @ '': 1'' @ [CHR 0x0A] @
     ''    }'' @ [CHR 0x0A] @
     ''  },'' @ [CHR 0x0A] @
     ''  '' @ dq @ ''totals'' @ dq @ '': {'' @ [CHR 0x0A] @
     ''    '' @ dq @ ''spo2'' @ dq @ '': 1,'' @ [CHR 0x0A] @
     ''    '' @ dq @ ''heart_rate'' @ dq @ '': 2'' @ [CHR 0x0A] @
     ''  }'' @ [CHR 0x0A] @
     ''}''"
    by code_simp
  have emp: "stdout empty_world = []" by (simp add: empty_world_def)
  from keys_in_first_seen_order [OF order_resolve agg, of None empty_world]
  have "stdout (snd (process_data order_env (ascii ''demo'') None empty_world)) =
        stdout empty_world @
        ordered_text (record_stream order_env (ascii ''demo'') 1
          [JStr (ascii ''a''), JStr (ascii ''b'')]) @ [CHR 0x0A]"
    by blast
  then have printed: "stdout (snd (process_data order_env (ascii ''demo'') None empty_world)) =
        ordered_text [?r1, ?r2, ?r3] @ [CHR 0x0A]"
    by (simp only: stream emp append_Nil)
  from agg order_resolve stream printed [unfolded shown] show ?thesis by simp
qed

subsection \<open>Failures of the export resolution\<close>

lemma resolve_error_surfaced:
  "resolve env eid = Inl e \<Longrightarrow> surfaced env eid output_file tm w e"
  by (simp add: surfaced_def main_def process_data_def aggregate_def bind_def)

lemma resolve_request_fails:
  "urlopen env 0 (ExportUrl eid) = Inl e \<Longrightarrow> resolve env eid = Inl e"
  by (simp add: resolve_def bind_def)

lemma resolve_read_fails:
  "urlopen env 0 (ExportUrl eid) = Inr response \<Longrightarrow> read_all response = Inl e \<Longrightarrow>
   resolve env eid = Inl e"
  by (simp add: resolve_def bind_def)

lemma resolve_not_utf8:
  "urlopen env 0 (ExportUrl eid) = Inr response \<Longrightarrow> read_all response = Inr body \<Longrightarrow>
   utf8_decode body = Inl e \<Longrightarrow> resolve env eid = Inl e"
  by (simp add: resolve_def bind_def)

lemma resolve_not_json:
  "urlopen env 0 (ExportUrl eid) = Inr response \<Longrightarrow> read_all response = Inr body \<Longrightarrow>
   utf8_decode body = Inr decoded \<Longrightarrow> json_loads env decoded = Inl e \<Longrightarrow>
   resolve env eid = Inl e"
  by (simp add: resolve_def bind_def)

lemma no_key_path:
  assumes "\<not> has_key_path document"
  shows "bind (subscript document (ascii ''data''))
           (\<lambda>export_data. bind (subscript export_data (ascii ''download_ids'')) f) =
         Inl (KeyError (ascii ''data'')) \<or>
         bind (subscript document (ascii ''data''))
           (\<lambda>export_data. bind (subscript export_data (ascii ''download_ids'')) f) =
         Inl (KeyError (ascii ''download_ids'')) \<or>
         bind (subscript document (ascii ''data''))
           (\<lambda>export_data. bind (subscript export_data (ascii ''download_ids'')) f) =
         Inl TypeError"
proof (cases document)
  case (JObj kvs)
  show ?thesis
  proof (cases "map_of kvs (ascii ''data'')")
    case None
    then show ?thesis by (simp add: JObj bind_def)
  next
    case (Some export_data)
    with assms JObj show ?thesis
      by (cases export_data) (auto simp: has_key_path_def bind_def)
  qed
qed (simp_all add: bind_def)

lemma resolve_no_key_path:
  assumes "urlopen env 0 (ExportUrl eid) = Inr response" and "read_all response = Inr body"
    and "utf8_decode body = Inr decoded" and "json_loads env decoded = Inr document"
    and "\<not> has_key_path document"
  shows "resolve env eid = Inl (KeyError (ascii ''data'')) \<or>
         resolve env eid = Inl (KeyError (ascii ''download_ids'')) \<or>
         resolve env eid = Inl TypeError"
proof -
  have "resolve env eid =
        bind (subscript document (ascii ''data''))
          (\<lambda>export_data. bind (subscript export_data (ascii ''download_ids''))
            (\<lambda>download_ids. bind (py_len download_ids) (\<lambda>n. Inr download_ids)))"
    using assms(1-4) by (simp add: resolve_def bind_def)
  then show ?thesis using no_key_path [OF assms(5)] by simp
qed

text \<open>
  Claim C5. The export resolution ends \<open>process_data\<close> with the failure unchanged, nothing
  printed and nothing written, and \<open>main\<close> logs it and returns 255, in each of these cases:
  the request raises \<open>e\<close> (a \<open>URLError\<close> when the server cannot be reached), or reading the
  body does; the body is not UTF-8 text (\<open>UnicodeDecodeError\<close>); \<open>json.loads\<close> rejects the body
  with \<open>e\<close> (a \<open>JSONDecodeError\<close>); or the document lacks the key path \<open>data.download_ids\<close>,
  where the failure is the \<open>KeyError\<close> of the missing key, or a \<open>TypeError\<close> when the document
  or its \<open>data\<close> member is not an object.
\<close>

theorem resolver_errors_surface:
  "(urlopen env 0 (ExportUrl eid) = Inl e \<longrightarrow> surfaced env eid output_file tm w e) \<and>
   (urlopen env 0 (ExportUrl eid) = Inr response \<and> read_all response = Inl e \<longrightarrow>
      surfaced env eid output_file tm w e) \<and>
   (urlopen env 0 (ExportUrl eid) = Inr response \<and> read_all response = Inr body \<and>
    utf8_decode body = Inl e \<longrightarrow> surfaced env eid output_file tm w e) \<and>
   (urlopen env 0 (ExportUrl eid) = Inr response \<and> read_all response = Inr body \<and>
    utf8_decode body = Inr decoded \<and> json_loads env decoded = Inl e \<longrightarrow>
      surfaced env eid output_file tm w e) \<and>
   (urlopen env 0 (ExportUrl eid) = Inr response \<and> read_all response = Inr body \<and>
    utf8_decode body = Inr decoded \<and> json_loads env decoded = Inr document \<and>
    \<not> has_key_path document \<longrightarrow>
      surfaced env eid output_file tm w (KeyError (ascii ''data'')) \<or>
      surfaced env eid output_file tm w (KeyError (ascii ''download_ids'')) \<or>
      surfaced env eid output_file tm w TypeError)"
proof (intro conjI impI)
  assume "urlopen env 0 (ExportUrl eid) = Inl e"
  then show "surfaced env eid output_file tm w e"
    by (intro resolve_error_surfaced resolve_request_fails)
next
  assume "urlopen env 0 (ExportUrl eid) = Inr response \<and> read_all response = Inl e"
  then show "surfaced env eid output_file tm w e"
    by (intro resolve_error_surfaced resolve_read_fails [of env eid response]) simp_all
next
  assume "urlopen env 0 (ExportUrl eid) = Inr response \<and> read_all response = Inr body \<and>
    utf8_decode body = Inl e"
  then show "surfaced env eid output_file tm w e"
    by (intro resolve_error_surfaced resolve_not_utf8 [of env eid response body]) simp_all
next
  assume "urlopen env 0 (ExportUrl eid) = Inr response \<and> read_all response = Inr body \<and>
    utf8_decode body = Inr decoded \<and> json_loads env decoded = Inl e"
  then show "surfaced env eid output_file tm w e"
    by (intro resolve_error_surfaced resolve_not_json [of env eid response body decoded])
       simp_all
next
  assume "urlopen env 0 (ExportUrl eid) = Inr response \<and> read_all response = Inr body \<and>
    utf8_decode body = Inr decoded \<and> json_loads env decoded = Inr document \<and>
    \<not> has_key_path document"
  then have "resolve env eid = Inl (KeyError (ascii ''data'')) \<or>
         resolve env eid = Inl (KeyError (ascii ''download_ids'')) \<or>
         resolve env eid = Inl TypeError"
    by (intro resolve_no_key_path [of env eid response body decoded document]) simp_all
  then show "surfaced env eid output_file tm w (KeyError (ascii ''data'')) \<or>
      surfaced env eid output_file tm w (KeyError (ascii ''download_ids'')) \<or>
      surfaced env eid output_file tm w TypeError"
    using resolve_error_surfaced by blast
qed

theorem resolver_errors_surface_witness:
  "surfaced (mock_env (Inl (URLError ''Connection refused'')) (\<lambda>s. Inr JNull))
     (ascii ''demo'') None False empty_world (URLError ''Connection refused'') \<and>
   surfaced (mock_env (Inr [Inr ''{'', Inl (OSError ''Connection reset by peer'')])
       (\<lambda>s. Inr JNull))
     (ascii ''demo'') None False empty_world (OSError ''Connection reset by peer'') \<and>
   surfaced (mock_env (Inr [Inr [CHR 0xFF]]) (\<lambda>s. Inr JNull))
     (ascii ''demo'') None False empty_world UnicodeDecodeError \<and>
   surfaced (mock_env (Inr [Inr ''not json''])
       (\<lambda>s. Inl (JSONDecodeError ''Expecting value'')))
     (ascii ''demo'') None False empty_world (JSONDecodeError ''Expecting value'') \<and>
   (surfaced (mock_env (Inr [Inr ''{}'']) (\<lambda>s. if s = ascii ''{}'' then Inr (JObj []) else Inr JNull))
      (ascii ''demo'') None False empty_world (KeyError (ascii ''data'')) \<or>
    surfaced (mock_env (Inr [Inr ''{}'']) (\<lambda>s. if s = ascii ''{}'' then Inr (JObj []) else Inr JNull))
      (ascii ''demo'') None False empty_world (KeyError (ascii ''download_ids'')) \<or>
    surfaced (mock_env (Inr [Inr ''{}'']) (\<lambda>s. if s = ascii ''{}'' then Inr (JObj []) else Inr JNull))
      (ascii ''demo'') None False empty_world TypeError)"
proof -
  let ?refused = "mock_env (Inl (URLError ''Connection refused'')) (\<lambda>s. Inr JNull)"
  let ?reset = "mock_env (Inr [Inr ''{'', Inl (OSError ''Connection reset by peer'')])
       (\<lambda>s. Inr JNull)"
  let ?binary = "mock_env (Inr [Inr [CHR 0xFF]]) (\<lambda>s. Inr JNull)"
  let ?garbage = "mock_env (Inr [Inr ''not json''])
       (\<lambda>s. Inl (JSONDecodeError ''Expecting value''))"
  let ?empty = "mock_env (Inr [Inr ''{}''])
       (\<lambda>s. if s = ascii ''{}'' then Inr (JObj []) else Inr JNull)"
  have a: "urlopen ?refused 0 (ExportUrl (ascii ''demo'')) = Inl (URLError ''Connection refused'')"
    by (simp add: mock_env_def)
  have b: "urlopen ?reset 0 (ExportUrl (ascii ''demo'')) =
             Inr [Inr ''{'', Inl (OSError ''Connection reset by peer'')] \<and>
           read_all [Inr ''{'', Inl (OSError ''Connection reset by peer'')] =
             Inl (OSError ''Connection reset by peer'')"
    by (simp add: mock_env_def bind_def)
  have "utf8_decode [CHR 0xFF] = Inl UnicodeDecodeError"
    by (simp add: utf8_decode_def utf8_points.simps)
  then have c: "urlopen ?binary 0 (ExportUrl (ascii ''demo'')) = Inr [Inr [CHR 0xFF]] \<and>
           read_all [Inr [CHR 0xFF]] = Inr [CHR 0xFF] \<and>
           utf8_decode [CHR 0xFF] = Inl UnicodeDecodeError"
    by (simp add: mock_env_def bind_def)
  have "utf8_decode ''not json'' = Inr (ascii ''not json'')"
    by (rule utf8_decode_ascii) simp
  then have d: "urlopen ?garbage 0 (ExportUrl (ascii ''demo'')) = Inr [Inr ''not json''] \<and>
           read_all [Inr ''not json''] = Inr ''not json'' \<and>
           utf8_decode ''not json'' = Inr (ascii ''not json'') \<and>
           json_loads ?garbage (ascii ''not json'') = Inl (JSONDecodeError ''Expecting value'')"
    by (simp add: mock_env_def bind_def)
  have "utf8_decode ''{}'' = Inr (ascii ''{}'')"
    by (rule utf8_decode_ascii) simp
  then have e: "urlopen ?empty 0 (ExportUrl (ascii ''demo'')) = Inr [Inr ''{}''] \<and>
           read_all [Inr ''{}''] = Inr ''{}'' \<and>
           utf8_decode ''{}'' = Inr (ascii ''{}'') \<and>
           json_loads ?empty (ascii ''{}'') = Inr (JObj []) \<and>
           \<not> has_key_path (JObj [])"
    by (simp add: mock_env_def bind_def has_key_path_def)
  from resolver_errors_surface [where env = ?refused and eid = "ascii ''demo''"
      and e = "URLError ''Connection refused''" and output_file = None and tm = False
      and w = empty_world] a
  have 1: "surfaced ?refused (ascii ''demo'') None False empty_world
             (URLError ''Connection refused'')"
    by blast
  from resolver_errors_surface [where env = ?reset and eid = "ascii ''demo''"
      and e = "OSError ''Connection reset by peer''" and output_file = None and tm = False
      and w = empty_world
      and response = "[Inr ''{'', Inl (OSError ''Connection reset by peer'')]"] b
  have 2: "surfaced ?reset (ascii ''demo'') None False empty_world
             (OSError ''Connection reset by peer'')"
    by blast
  from resolver_errors_surface [where env = ?binary and eid = "ascii ''demo''"
      and e = UnicodeDecodeError and output_file = None and tm = False
      and w = empty_world and response = "[Inr [CHR 0xFF]]" and body = "[CHR 0xFF]"] c
  have 3: "surfaced ?binary (ascii ''demo'') None False empty_world UnicodeDecodeError"
    by blast
  from resolver_errors_surface [where env = ?garbage and eid = "ascii ''demo''"
      and e = "JSONDecodeError ''Expecting value''" and output_file = None and tm = False
      and w = empty_world and response = "[Inr ''not json'']" and body = "''not json''"
      and decoded = "ascii ''not json''"] d
  have 4: "surfaced ?garbage (ascii ''demo'') None False empty_world
             (JSONDecodeError ''Expecting value'')"
    by blast
  from resolver_errors_surface [where env = ?empty and eid = "ascii ''demo''"
      and output_file = None and tm = False
      and w = empty_world and response = "[Inr ''{}'']" and body = "''{}''"
      and decoded = "ascii ''{}''" and document = "JObj []"] e
  have 5: "surfaced ?empty (ascii ''demo'') None False empty_world (KeyError (ascii ''data'')) \<or>
           surfaced ?empty (ascii ''demo'') None False empty_world
             (KeyError (ascii ''download_ids'')) \<or>
           surfaced ?empty (ascii ''demo'') None False empty_world TypeError"
    by blast
  from 1 2 3 4 5 show ?thesis by (intro conjI)
qed

end
